theory Spec2Isabelle
  imports Complex_Main "HOL-Library.Multiset" "HOL-Library.AList" "HOL-Library.Log_Nat"
    "HOL-Library.Product_Lexorder"
begin

section \<open>The recommender notebook: data and errors\<close>

text \<open>
  The notebook \<^verbatim>\<open>recommender_system.ipynb\<close> defines the class
  \<^verbatim>\<open>RecommenderSystem\<close> as a thin layer over pandas, numpy, scipy, scikit-learn and
  the \<^verbatim>\<open>implicit\<close> package. Each method is embedded as a function on the data it
  touches. The calls into those packages are embedded by what the packages compute on the
  arguments the notebook passes; what a package draws at random, or leaves open, is an
  argument of the embedding.

  Exceptions are values: a method returns \<open>Inl e\<close> where the Python raises \<open>e\<close>.
\<close>

datatype py_error =
  ValueError | IndexError | AttributeError | ZeroDivisionError | FileNotFoundError

text \<open>
  A row of \<^verbatim>\<open>self.df\<close>, the frame of \<^verbatim>\<open>BingeDataset.get_df\<close>, with the two columns
  the class reads. Scores are \<^verbatim>\<open>float32\<close> values of the frame, kept as the rationals
  they are; the rounding of the arithmetic on them is defined below.
\<close>

record df_row =
  movie_id :: nat
  score :: rat

text \<open>
  A row of the frame of \<^verbatim>\<open>BingeDataset.get_cleaned_ratings\<close>: the raw ratings, columns
  \<^verbatim>\<open>movie_id\<close>, \<^verbatim>\<open>user_id\<close>, \<^verbatim>\<open>rating\<close> (the \<^verbatim>\<open>datetime\<close> column is dropped).
\<close>

record rating_row =
  r_movie_id :: nat
  r_user_id :: nat
  rating :: rat

section \<open>numpy scalar arithmetic\<close>

text \<open>
  \<^verbatim>\<open>self.df.loc[..., "score"].iloc[0]\<close> is a numpy \<^verbatim>\<open>float32\<close> scalar. Arithmetic on
  numpy scalars follows IEEE 754: a division by zero does not raise, it gives an infinity
  (or not-a-number for \<open>0 / 0\<close>) and a \<^verbatim>\<open>RuntimeWarning\<close>. The results of the arithmetic
  are therefore finite values, the two infinities, or not-a-number.
\<close>

datatype npfloat = Finite rat | PosInf | NegInf | NaN

definition np_div :: "rat \<Rightarrow> rat \<Rightarrow> npfloat" where
  "np_div x y =
     (if y \<noteq> 0 then Finite (x / y)
      else if x = 0 then NaN
      else if 0 < x then PosInf else NegInf)"

fun np_mul :: "npfloat \<Rightarrow> rat \<Rightarrow> npfloat" where
  "np_mul (Finite x) c = Finite (x * c)"
| "np_mul PosInf c = (if 0 < c then PosInf else if c < 0 then NegInf else NaN)"
| "np_mul NegInf c = (if 0 < c then NegInf else if c < 0 then PosInf else NaN)"
| "np_mul NaN c = NaN"

fun np_abs :: "npfloat \<Rightarrow> npfloat" where
  "np_abs (Finite x) = Finite \<bar>x\<bar>"
| "np_abs PosInf = PosInf"
| "np_abs NegInf = PosInf"
| "np_abs NaN = NaN"

fun np_gt :: "npfloat \<Rightarrow> rat \<Rightarrow> bool" where
  "np_gt (Finite x) t = (t < x)"
| "np_gt PosInf t = True"
| "np_gt NegInf t = False"
| "np_gt NaN t = False"

section \<open>Rounding to floating point\<close>

text \<open>
  A binary floating-point format with \<open>p\<close> significant bits and exponents from \<open>emin\<close> to
  \<open>emax\<close> holds the numbers \<open>n * 2 ^ (e - (p - 1))\<close> with \<open>|n| < 2 ^ p\<close> and
  \<open>emin \<le> e \<le> emax\<close>. An arithmetic operation returns the exact result rounded to the
  nearest such number, a tie going to the even \<open>n\<close>, and an infinity when the rounded
  magnitude reaches \<open>2 ^ (emax + 1)\<close>. The sign of a zero is not kept.

  \<open>log2_floor x\<close> is the exponent of \<open>x\<close>, the integer \<open>e\<close> with \<open>2 ^ e \<le> |x| < 2 ^ (e + 1)\<close>.
\<close>

definition log2_floor :: "rat \<Rightarrow> int" where
  "log2_floor x =
     (let (p, q) = quotient_of \<bar>x\<bar>; d = bitlen p - bitlen q
      in if 2 powi d \<le> \<bar>x\<bar> then d else d - 1)"

definition round_half_even :: "rat \<Rightarrow> int" where
  "round_half_even q =
     (let f = \<lfloor>q\<rfloor>; r = q - of_int f
      in if r < 1 / 2 then f else if 1 / 2 < r then f + 1 else if even f then f else f + 1)"

definition round_float :: "nat \<Rightarrow> int \<Rightarrow> int \<Rightarrow> rat \<Rightarrow> npfloat" where
  "round_float p emin emax x =
     (if x = 0 then Finite 0
      else let e = max (log2_floor x) emin;
               u = 2 powi (e - (int p - 1));
               y = of_int (round_half_even (x / u)) * u
           in if 2 powi (emax + 1) \<le> \<bar>y\<bar> then (if 0 < x then PosInf else NegInf)
              else Finite y)"

text \<open>\<^verbatim>\<open>float32\<close> (the scores of the frame) and \<^verbatim>\<open>float64\<close> (a Python float).\<close>

definition f32 :: "rat \<Rightarrow> npfloat" where
  "f32 = round_float 24 (- 126) 127"

definition f64 :: "rat \<Rightarrow> npfloat" where
  "f64 = round_float 53 (- 1022) 1023"

text \<open>
  The operations of \<^verbatim>\<open>compare_movies\<close> on \<^verbatim>\<open>float32\<close> scalars: the difference of two
  scores, the quotient by a score, the product with the integer 100, and the comparison
  with the threshold converted to \<^verbatim>\<open>float32\<close> (in NumPy 2 a Python number takes the
  type of the numpy scalar it meets).
\<close>

definition np_sub32 :: "rat \<Rightarrow> rat \<Rightarrow> npfloat" where
  "np_sub32 x y = f32 (x - y)"

fun np_div32 :: "npfloat \<Rightarrow> rat \<Rightarrow> npfloat" where
  "np_div32 (Finite x) y =
     (if y \<noteq> 0 then f32 (x / y)
      else if x = 0 then NaN
      else if 0 < x then PosInf else NegInf)"
| "np_div32 PosInf y = (if 0 \<le> y then PosInf else NegInf)"
| "np_div32 NegInf y = (if 0 \<le> y then NegInf else PosInf)"
| "np_div32 NaN y = NaN"

fun np_mul32 :: "npfloat \<Rightarrow> rat \<Rightarrow> npfloat" where
  "np_mul32 (Finite x) c = f32 (x * c)"
| "np_mul32 PosInf c = (if 0 < c then PosInf else if c < 0 then NegInf else NaN)"
| "np_mul32 NegInf c = (if 0 < c then NegInf else if c < 0 then PosInf else NaN)"
| "np_mul32 NaN c = NaN"

fun np_greater :: "npfloat \<Rightarrow> npfloat \<Rightarrow> bool" where
  "np_greater (Finite x) (Finite y) = (y < x)"
| "np_greater (Finite x) NegInf = True"
| "np_greater PosInf (Finite y) = True"
| "np_greater PosInf NegInf = True"
| "np_greater x y = False"

section \<open>compare\_movies\<close>

text \<open>
  \<^verbatim>\<open>self.df.loc[self.df["movie_id"] == m, "score"].iloc[0]\<close>: the score of the first row
  of the frame whose \<^verbatim>\<open>movie_id\<close> is \<open>m\<close>; \<^verbatim>\<open>.iloc[0]\<close> raises \<^verbatim>\<open>IndexError\<close> on an
  empty selection.
\<close>

fun first_score :: "df_row list \<Rightarrow> nat \<Rightarrow> rat option" where
  "first_score [] m = None"
| "first_score (r # rs) m = (if movie_id r = m then Some (score r) else first_score rs m)"

text \<open>
  \<^verbatim>\<open>
  def compare_movies(self, movie_one_id, movie_two_id, threshold=5.0):
      if threshold > 100 or threshold < 0:
          raise ValueError("Threshold can't be more then 100")
      movie_one_score, movie_two_score = (
          self.df.loc[self.df["movie_id"] == movie_one_id, "score"].iloc[0],
          self.df.loc[self.df["movie_id"] == movie_two_id, "score"].iloc[0])
      difference_by_percentage = abs(
          ((movie_one_score - movie_two_score) / movie_one_score) * 100)
      return difference_by_percentage > threshold
  \<close>
  The first argument is \<^verbatim>\<open>self.df\<close>. In \<open>compare_movies_float32\<close> each operation is
  rounded to \<^verbatim>\<open>float32\<close>, as numpy computes it. In \<open>compare_movies\<close> the three operations
  are exact: it stands for the method where rounding does not change the outcome (the
  errors, a zero score, equal scores, a zero threshold), which is proved below.
\<close>

definition compare_movies :: "df_row list \<Rightarrow> nat \<Rightarrow> nat \<Rightarrow> rat \<Rightarrow> py_error + bool" where
  "compare_movies df movie_one_id movie_two_id threshold =
     (if threshold > 100 \<or> threshold < 0 then Inl ValueError
      else case first_score df movie_one_id of
        None \<Rightarrow> Inl IndexError
      | Some movie_one_score \<Rightarrow>
          (case first_score df movie_two_id of
             None \<Rightarrow> Inl IndexError
           | Some movie_two_score \<Rightarrow>
               Inr (np_gt
                 (np_abs (np_mul (np_div (movie_one_score - movie_two_score) movie_one_score) 100))
                 threshold)))"

definition compare_movies_float32 :: "df_row list \<Rightarrow> nat \<Rightarrow> nat \<Rightarrow> rat \<Rightarrow> py_error + bool" where
  "compare_movies_float32 df movie_one_id movie_two_id threshold =
     (if threshold > 100 \<or> threshold < 0 then Inl ValueError
      else case first_score df movie_one_id of
        None \<Rightarrow> Inl IndexError
      | Some movie_one_score \<Rightarrow>
          (case first_score df movie_two_id of
             None \<Rightarrow> Inl IndexError
           | Some movie_two_score \<Rightarrow>
               Inr (np_greater
                 (np_abs (np_mul32 (np_div32 (np_sub32 movie_one_score movie_two_score)
                    movie_one_score) 100))
                 (f32 threshold))))"

text \<open>
  The scores of the frame are products of a median of ratings and a count of reviews:
  for integer ratings, halves of natural numbers. \<open>popularity_score\<close> holds of the
  halves below \<open>2 ^ 22\<close>; each of them is a \<^verbatim>\<open>float32\<close> value.
\<close>

definition popularity_score :: "rat \<Rightarrow> bool" where
  "popularity_score s = (0 \<le> s \<and> s < 2 ^ 22 \<and> of_int \<lfloor>2 * s\<rfloor> = 2 * s)"

section \<open>The sparse interaction matrix\<close>

text \<open>
  A scipy \<^verbatim>\<open>csr_matrix\<close>: the number of columns and, for each row, the stored entries as
  (column, value) pairs in column order. The number of rows is the length of the list.
\<close>

record csr =
  csr_ncols :: nat
  csr_rows :: "(nat \<times> int) list list"

text \<open>
  \<^verbatim>\<open>.astype("int32")\<close> of the summed float ratings: the fraction is cut off (towards
  zero); a value outside the 32-bit range converts to the lowest 32-bit integer.
\<close>

definition astype_int32 :: "rat \<Rightarrow> int" where
  "astype_int32 x =
     (let z = (if 0 \<le> x then \<lfloor>x\<rfloor> else \<lceil>x\<rceil>)
      in if - (2 ^ 31) \<le> z \<and> z < 2 ^ 31 then z else - (2 ^ 31))"

text \<open>
  \<^verbatim>\<open>csr_matrix((data, (row, col)))\<close> adds up the data of the triples that share a
  (row, col) position, and stores one entry per position that occurs.
\<close>

definition summed :: "rating_row list \<Rightarrow> nat \<Rightarrow> nat \<Rightarrow> rat" where
  "summed df u c = sum_list (map rating (filter (\<lambda>r. r_user_id r = u \<and> r_movie_id r = c) df))"

definition stored_cols :: "rating_row list \<Rightarrow> nat \<Rightarrow> nat list" where
  "stored_cols df u = sort (remdups (map r_movie_id (filter (\<lambda>r. r_user_id r = u) df)))"

text \<open>
  \<^verbatim>\<open>
  def get_sparse(self) -> csr_matrix:
      df = self.binge_dataset.get_cleaned_ratings()
      return csr_matrix(
          (df["rating"].values, (df["user_id"].values, df["movie_id"].values)),
      ).astype("int32")
  \<close>
  The argument is the frame of \<^verbatim>\<open>get_cleaned_ratings\<close>. Rows are users, columns are
  movies, and the shape is one more than the largest index of each; scipy cannot infer a
  shape from no triples and raises \<^verbatim>\<open>ValueError\<close>.
\<close>

definition get_sparse :: "rating_row list \<Rightarrow> py_error + csr" where
  "get_sparse df =
     (if df = [] then Inl ValueError
      else Inr \<lparr>csr_ncols = Max (set (map r_movie_id df)) + 1,
                csr_rows = map (\<lambda>u. map (\<lambda>c. (c, astype_int32 (summed df u c))) (stored_cols df u))
                             [0 ..< Max (set (map r_user_id df)) + 1]\<rparr>)"

text \<open>\<^verbatim>\<open>X[u, i]\<close>: the stored value, 0 where nothing is stored, \<^verbatim>\<open>IndexError\<close> outside the shape.\<close>

definition getitem :: "csr \<Rightarrow> nat \<Rightarrow> nat \<Rightarrow> py_error + int" where
  "getitem X u i =
     (if u < length (csr_rows X) \<and> i < csr_ncols X
      then Inr (case map_of (csr_rows X ! u) i of None \<Rightarrow> 0 | Some v \<Rightarrow> v)
      else Inl IndexError)"


text \<open>The number of entries of the matrix that are not zero.\<close>

definition nonzero_count :: "csr \<Rightarrow> nat" where
  "nonzero_count X = sum_list (map (\<lambda>row. length (filter (\<lambda>e. snd e \<noteq> 0) row)) (csr_rows X))"

section \<open>The train/test split of scikit-learn\<close>

text \<open>
  \<^verbatim>\<open>train_test_split(X, test_size=..., shuffle=..., random_state=...)\<close> on a sparse matrix
  splits its rows. \<^verbatim>\<open>test_size\<close> is a fraction (a Python float, which must lie strictly
  between 0 and 1) or a number of rows (an int). For a fraction the number of test rows
  is \<^verbatim>\<open>ceil(test_size * n_samples)\<close>, the product computed in \<^verbatim>\<open>float64\<close>; the train
  rows are the rest, and an empty train set is a \<^verbatim>\<open>ValueError\<close>.
\<close>

datatype size_arg = Fraction rat | Count nat

definition split_sizes :: "nat \<Rightarrow> size_arg \<Rightarrow> py_error + (nat \<times> nat)" where
  "split_sizes n_samples test_size =
     (case test_size of
        Fraction f \<Rightarrow>
          (case f64 f of
             Finite tf \<Rightarrow>
               if tf \<le> 0 \<or> 1 \<le> tf then Inl ValueError
               else (case f64 (tf * of_nat n_samples) of
                       Finite product \<Rightarrow>
                         let n_test = nat \<lceil>product\<rceil>; n_train = n_samples - n_test
                         in if n_train = 0 then Inl ValueError else Inr (n_train, n_test)
                     | _ \<Rightarrow> Inl ValueError)
           | _ \<Rightarrow> Inl ValueError)
      | Count k \<Rightarrow>
          if k = 0 \<or> n_samples \<le> k then Inl ValueError
          else Inr (n_samples - k, k))"

text \<open>\<^verbatim>\<open>X[indices]\<close>: the rows at the given indices, in that order, with all columns.\<close>

definition take_rows :: "csr \<Rightarrow> nat list \<Rightarrow> csr" where
  "take_rows X idx = \<lparr>csr_ncols = csr_ncols X, csr_rows = map (\<lambda>i. csr_rows X ! i) idx\<rparr>"

text \<open>
  With \<^verbatim>\<open>shuffle=True\<close> the row indices are permuted by the random state
  (\<^verbatim>\<open>rng.permutation(n_samples)\<close>, the argument \<open>permutation\<close> here): the first \<open>n_test\<close>
  indices of the permutation are the test rows and the next \<open>n_train\<close> the train rows.
  With \<^verbatim>\<open>shuffle=False\<close> the first \<open>n_train\<close> rows are the train rows and the following
  \<open>n_test\<close> rows the test rows. The result is \<^verbatim>\<open>(X[train], X[test])\<close>.
\<close>

definition train_test_split :: "csr \<Rightarrow> size_arg \<Rightarrow> bool \<Rightarrow> nat list \<Rightarrow> py_error + (csr \<times> csr)" where
  "train_test_split X test_size shuffle permutation =
     (case split_sizes (length (csr_rows X)) test_size of
        Inl e \<Rightarrow> Inl e
      | Inr (n_train, n_test) \<Rightarrow>
          if shuffle
          then Inr (take_rows X (take n_train (drop n_test permutation)),
                    take_rows X (take n_test permutation))
          else Inr (take_rows X [0 ..< n_train],
                    take_rows X [n_train ..< n_train + n_test]))"

section \<open>Cold-start recommendations\<close>

text \<open>
  \<^verbatim>\<open>Series.unique()\<close>: the distinct values in the order of their first appearance.
\<close>

fun unique :: "'a list \<Rightarrow> 'a list" where
  "unique [] = []"
| "unique (x # xs) = x # unique (filter (\<lambda>y. y \<noteq> x) xs)"

text \<open>
  \<^verbatim>\<open>self.df.sort_values(by="score", ascending=False)\<close> uses pandas' default sort, which is
  not stable: the result is some arrangement of the rows of the frame in which the scores
  never increase, and the order of rows with equal scores is not fixed.
\<close>

definition sort_values_outcome :: "df_row list \<Rightarrow> df_row list \<Rightarrow> bool" where
  "sort_values_outcome frame sorted_frame =
     (mset sorted_frame = mset frame \<and> sorted_wrt (\<lambda>a b. score b \<le> score a) sorted_frame)"

text \<open>
  \<^verbatim>\<open>np.random.randint(0, high, n)\<close> draws \<open>n\<close> integers from \<open>0, ..., high - 1\<close>, each
  independently of the others (so with repetition); when \<open>high \<le> 0\<close> it raises
  \<^verbatim>\<open>ValueError\<close>, unless \<open>n = 0\<close>, for which it returns no integers.
\<close>

definition randint_outcome :: "nat \<Rightarrow> nat \<Rightarrow> nat list \<Rightarrow> bool" where
  "randint_outcome high n draw = (length draw = n \<and> list_all (\<lambda>i. i < high) draw)"

text \<open>
  \<^verbatim>\<open>
  def recommend_for_new_users(self, n_movies=5, size_of_pool_to_select_from=100):
      movies_to_select = np.random.randint(0, size_of_pool_to_select_from, n_movies)
      return (
          self.df
          .sort_values(by="score", ascending=False)["movie_id"]
          .unique()
          [:size_of_pool_to_select_from]
          [movies_to_select])
  \<close>
  The arguments are the sorted frame (an outcome of \<^verbatim>\<open>sort_values\<close>), the indices drawn
  (an outcome of \<^verbatim>\<open>randint\<close> for \<^verbatim>\<open>n_movies\<close>) and the pool size. Indexing the pool at an
  index beyond its end raises \<^verbatim>\<open>IndexError\<close>.
\<close>

definition recommend_for_new_users :: "df_row list \<Rightarrow> nat list \<Rightarrow> nat \<Rightarrow> py_error + nat list" where
  "recommend_for_new_users sorted_df movies_to_select size_of_pool_to_select_from =
     (if size_of_pool_to_select_from = 0 \<and> movies_to_select \<noteq> [] then Inl ValueError
      else let pool = take size_of_pool_to_select_from (unique (map movie_id sorted_df))
           in if list_all (\<lambda>i. i < length pool) movies_to_select
              then Inr (map (\<lambda>i. pool ! i) movies_to_select)
              else Inl IndexError)"

section \<open>The factor model and its recommendations\<close>

text \<open>
  The model of \<^verbatim>\<open>implicit.als.AlternatingLeastSquares\<close>: one row of latent factors per
  user and per item (exact rationals here; the rounding of the \<^verbatim>\<open>float32\<close> products is not
  modelled). The predicted score of an item for a user is the product of their rows.
\<close>

record als_model =
  user_factors :: "rat list list"
  item_factors :: "rat list list"











section \<open>Fitting the model\<close>

text \<open>
  The keyword arguments that \<open>fit\<close> hands to \<^verbatim>\<open>AlternatingLeastSquares(**kwargs)\<close>.
  \<^verbatim>\<open>random_state\<close> is not among them: it is a named parameter of \<open>fit\<close>, so Python binds
  it there and it never reaches the model, whose own random state stays \<^verbatim>\<open>None\<close>.
\<close>

record als_kwargs =
  factors :: nat
  regularization :: rat
  iterations :: nat

text \<open>
  \<^verbatim>\<open>AlternatingLeastSquares.fit(X_train)\<close> draws the initial factors of the users and of
  the items from the model's random state (here unseeded: the draw is an argument), and
  then runs the least-squares solver \<^verbatim>\<open>iterations\<close> times over both sides. The solver
  of the package is an argument.
\<close>

definition initial_draw :: "als_kwargs \<Rightarrow> csr \<Rightarrow> als_model \<Rightarrow> bool" where
  "initial_draw kwargs X init =
     (length (user_factors init) = length (csr_rows X)
      \<and> length (item_factors init) = csr_ncols X
      \<and> list_all (\<lambda>row. length row = factors kwargs \<and> list_all (\<lambda>x. 0 \<le> x \<and> x < 1 / 100) row)
           (user_factors init @ item_factors init))"

definition als_fit ::
  "(als_kwargs \<Rightarrow> csr \<Rightarrow> als_model \<Rightarrow> als_model) \<Rightarrow> als_kwargs \<Rightarrow> als_model \<Rightarrow> csr \<Rightarrow> als_model" where
  "als_fit solver kwargs initial_factors X_train =
     (solver kwargs X_train ^^ iterations kwargs) initial_factors"

text \<open>
  The attributes of a \<^verbatim>\<open>RecommenderSystem\<close>. \<^verbatim>\<open>model\<close> is \<^verbatim>\<open>None\<close> until a model is
  loaded or fitted; \<^verbatim>\<open>test_score\<close> exists after \<^verbatim>\<open>fit\<close>.
\<close>

record recsys =
  df :: "df_row list"
  sparse_matrix :: csr
  model_save_address :: string
  model :: "als_model option"
  test_score :: "rat option"

text \<open>
  The files of the machine: the directories that exist and the models saved at paths.
  \<^verbatim>\<open>model.save(path)\<close> writes with \<^verbatim>\<open>numpy.savez\<close>, which appends \<^verbatim>\<open>.npz\<close> to a path
  without that ending and raises \<^verbatim>\<open>FileNotFoundError\<close> when the directory of the path
  does not exist. A path without a slash lies in the working directory.
\<close>

record filesystem =
  directories :: "string list"
  files :: "string \<rightharpoonup> als_model"

definition dirname :: "string \<Rightarrow> string" where
  "dirname path = rev (tl (dropWhile (\<lambda>c. c \<noteq> CHR ''/'') (rev path)))"

definition npz_path :: "string \<Rightarrow> string" where
  "npz_path path = (if take 4 (rev path) = rev ''.npz'' then path else path @ ''.npz'')"

definition als_save :: "filesystem \<Rightarrow> string \<Rightarrow> als_model \<Rightarrow> py_error + filesystem" where
  "als_save fs path m =
     (if dirname (npz_path path) \<noteq> [] \<and> dirname (npz_path path) \<notin> set (directories fs)
      then Inl FileNotFoundError
      else Inr (fs\<lparr>files := (files fs)(npz_path path \<mapsto> m)\<rparr>))"

text \<open>
  \<^verbatim>\<open>
  def fit(self, test_size=0.2, shuffle=True, random_state=None, **kwargs):
      X_train, X_test, *_ = train_test_split(
          self.sparse_matrix, test_size=test_size, shuffle=shuffle,
          random_state=random_state)
      self.model = AlternatingLeastSquares(**kwargs)
      self.model.fit(X_train)
      self.test_score = self.evaluate_model(X_train, X_test)
      self.model.save(self.model_save_address)
      return self.model, self.test_score
  \<close>
  \<open>permutation\<close> is what \<^verbatim>\<open>random_state\<close> makes of the row indices, and
  \<open>initial_factors\<close> is the draw of the model's own, unseeded random state. The metric
  \<^verbatim>\<open>mean_average_precision_at_k\<close> of the package, which \<^verbatim>\<open>evaluate_model\<close> calls, is an
  argument; it may raise (a \<^verbatim>\<open>ZeroDivisionError\<close>, for instance, when a test user has
  rated every movie). The result is the returned pair or the exception raised, the object
  after the call and the files after the call.
\<close>

definition fit ::
  "(als_kwargs \<Rightarrow> csr \<Rightarrow> als_model \<Rightarrow> als_model) \<Rightarrow> (als_model \<Rightarrow> csr \<Rightarrow> csr \<Rightarrow> py_error + rat) \<Rightarrow>
   recsys \<Rightarrow> filesystem \<Rightarrow> size_arg \<Rightarrow> bool \<Rightarrow> nat list \<Rightarrow> als_model \<Rightarrow> als_kwargs \<Rightarrow>
   (py_error + (als_model \<times> rat)) \<times> recsys \<times> filesystem" where
  "fit solver mean_average_precision_at_k self fs test_size shuffle permutation initial_factors
       kwargs =
     (case train_test_split (sparse_matrix self) test_size shuffle permutation of
        Inl e \<Rightarrow> (Inl e, self, fs)
      | Inr (X_train, X_test) \<Rightarrow>
          (let m = als_fit solver kwargs initial_factors X_train
           in case mean_average_precision_at_k m X_train X_test of
                Inl e \<Rightarrow> (Inl e, self\<lparr>model := Some m\<rparr>, fs)
              | Inr sc \<Rightarrow>
                  (case als_save fs (model_save_address self) m of
                     Inl e \<Rightarrow> (Inl e, self\<lparr>model := Some m, test_score := Some sc\<rparr>, fs)
                   | Inr fs' \<Rightarrow>
                       (Inr (m, sc), self\<lparr>model := Some m, test_score := Some sc\<rparr>, fs'))))"

section \<open>Recommendations for a known user\<close>



section \<open>Concrete data\<close>

text \<open>Small frames, matrices, models and machines for the concrete instances below.\<close>

definition example_df :: "df_row list" where
  "example_df =
     [\<lparr>movie_id = 11, score = 100\<rparr>, \<lparr>movie_id = 12, score = 50\<rparr>,
      \<lparr>movie_id = 13, score = 0\<rparr>]"

definition five_two :: "df_row list" where
  "five_two = [\<lparr>movie_id = 11, score = 5\<rparr>, \<lparr>movie_id = 12, score = 2\<rparr>]"

definition popularity :: "df_row list" where
  "popularity =
     [\<lparr>movie_id = 5, score = 10\<rparr>, \<lparr>movie_id = 2, score = 10\<rparr>, \<lparr>movie_id = 1, score = 5\<rparr>]"

definition example_ratings :: "rating_row list" where
  "example_ratings =
     [\<lparr>r_movie_id = 1, r_user_id = 0, rating = 7 / 2\<rparr>,
      \<lparr>r_movie_id = 0, r_user_id = 2, rating = 4\<rparr>]"

definition example_matrix :: csr where
  "example_matrix = \<lparr>csr_ncols = 2, csr_rows = [[(1, 3)], [], [(0, 4)]]\<rparr>"

definition two_users :: csr where
  "two_users = \<lparr>csr_ncols = 1, csr_rows = [[(0, 1)], [(0, 1)]]\<rparr>"

definition one_user :: csr where
  "one_user = \<lparr>csr_ncols = 1, csr_rows = [[(0, 1)]]\<rparr>"

definition five_users :: csr where
  "five_users = \<lparr>csr_ncols = 2, csr_rows = [[(0, 1)], [(0, 2), (1, 0)], [(1, 3)], [(0, 4)], []]\<rparr>"





text \<open>
  Four users who each rated the first of three movies, so that every split of the rows in
  halves gives the same two matrices; a recommender over them with no model yet; a
  permutation of the four rows; and a machine on which the directory of the model file
  exists and no file does.
\<close>

definition four_users :: csr where
  "four_users = \<lparr>csr_ncols = 3, csr_rows = [[(0, 1)], [(0, 1)], [(0, 1)], [(0, 1)]]\<rparr>"

definition half_of_four :: csr where
  "half_of_four = \<lparr>csr_ncols = 3, csr_rows = [[(0, 1)], [(0, 1)]]\<rparr>"

definition example_system :: recsys where
  "example_system =
     \<lparr>df = [], sparse_matrix = four_users,
      model_save_address = ''./models/als_recommender_model.npz'',
      model = None, test_score = None\<rparr>"

definition given_order :: "nat list" where
  "given_order = [0, 1, 2, 3]"

definition empty_machine :: filesystem where
  "empty_machine = \<lparr>directories = [''./models''], files = Map.empty\<rparr>"


text \<open>
  The defaults of the package; one factor and no iteration; and two draws of initial
  factors for one factor, two users and three movies.
\<close>

definition default_kwargs :: als_kwargs where
  "default_kwargs = \<lparr>factors = 100, regularization = 1 / 100, iterations = 15\<rparr>"

definition no_iteration :: als_kwargs where
  "no_iteration = \<lparr>factors = 1, regularization = 1 / 100, iterations = 0\<rparr>"

definition first_draw :: als_model where
  "first_draw =
     \<lparr>user_factors = [[1 / 1000], [2 / 1000]],
      item_factors = [[3 / 1000], [4 / 1000], [5 / 1000]]\<rparr>"

definition second_draw :: als_model where
  "second_draw =
     \<lparr>user_factors = [[9 / 1000], [8 / 1000]],
      item_factors = [[7 / 1000], [6 / 1000], [5 / 1000]]\<rparr>"

section \<open>Properties of compare\_movies\<close>

lemma first_score_example:
  "first_score example_df 11 = Some 100"
  "first_score example_df 12 = Some 50"
  "first_score example_df 13 = Some 0"
  "first_score example_df 14 = None"
  by (simp_all add: example_df_def)

lemma compare_movies_found:
  assumes "first_score frame a = Some sa" and "first_score frame b = Some sb"
    and "0 \<le> t" and "t \<le> 100"
  shows "compare_movies frame a b t = Inr (np_gt (np_abs (np_mul (np_div (sa - sb) sa) 100)) t)"
  using assms by (simp add: compare_movies_def not_less)

lemma percentage_nonzero:
  assumes "sa \<noteq> 0"
  shows "np_abs (np_mul (np_div (sa - sb) sa) 100) = Finite \<bar>(sa - sb) / sa * 100\<bar>"
  using assms by (simp add: np_div_def)

text \<open>
  Claim C6, as stated, at a threshold above 100: the guard of \<open>compare_movies\<close> raises
  \<^verbatim>\<open>ValueError\<close>, so the comparison of an item with itself does not return False for
  every threshold \<open>t \<ge> 0\<close>.
\<close>

theorem compare_movies_same_item_counterexample:
  "first_score example_df 11 = Some 100 \<and> (100::rat) \<noteq> 0 \<and> (0::rat) \<le> 150
   \<and> compare_movies example_df 11 11 150 = Inl ValueError
   \<and> compare_movies example_df 11 11 150 \<noteq> Inr False"
  by (simp add: compare_movies_def first_score_example)

text \<open>
  Claim C6, amended. For an item whose score is not zero and every threshold in
  \<open>[0, 100]\<close>, comparing the item with itself returns False; and for two items whose
  scores differ, the first score not zero, the comparison at threshold 0 returns True.
\<close>

theorem compare_movies_same_item:
  "(first_score frame a = Some sa \<and> sa \<noteq> 0 \<and> 0 \<le> t \<and> t \<le> 100
      \<longrightarrow> compare_movies frame a a t = Inr False)
   \<and> (first_score frame a = Some sa \<and> first_score frame b = Some sb \<and> sa \<noteq> 0 \<and> sa \<noteq> sb
      \<longrightarrow> compare_movies frame a b 0 = Inr True)"
proof (intro conjI impI)
  assume h: "first_score frame a = Some sa \<and> sa \<noteq> 0 \<and> 0 \<le> t \<and> t \<le> 100"
  then have "compare_movies frame a a t
      = Inr (np_gt (np_abs (np_mul (np_div (sa - sa) sa) 100)) t)"
    by (simp add: compare_movies_found)
  also have "\<dots> = Inr False"
    using h by (simp add: np_div_def)
  finally show "compare_movies frame a a t = Inr False" .
next
  assume h: "first_score frame a = Some sa \<and> first_score frame b = Some sb \<and> sa \<noteq> 0 \<and> sa \<noteq> sb"
  then have "compare_movies frame a b 0
      = Inr (np_gt (np_abs (np_mul (np_div (sa - sb) sa) 100)) 0)"
    by (simp add: compare_movies_found)
  also have "\<dots> = Inr True"
    using h by (simp add: np_div_def)
  finally show "compare_movies frame a b 0 = Inr True" .
qed

theorem compare_movies_same_item_witness:
  "first_score example_df 11 = Some 100 \<and> first_score example_df 12 = Some 50
   \<and> (100::rat) \<noteq> 0 \<and> (100::rat) \<noteq> 50 \<and> (0::rat) \<le> 5 \<and> (5::rat) \<le> 100
   \<and> compare_movies example_df 11 11 5 = Inr False
   \<and> compare_movies example_df 11 12 0 = Inr True"
  using compare_movies_same_item [of example_df 11 100 5 12 50]
  by (simp add: first_score_example)

text \<open>
  Claim C7, as stated, at a first item whose score is zero: the quotient is an infinity of
  numpy's arithmetic, larger than every threshold, and \<open>compare_movies\<close> returns True
  where the claim has it fail with a division-by-zero error.
\<close>

theorem compare_movies_zero_score_counterexample:
  "first_score example_df 13 = Some 0 \<and> (0::rat) \<le> 5 \<and> (5::rat) \<le> 100
   \<and> compare_movies example_df 13 12 5 = Inr True"
  by (simp add: compare_movies_def first_score_example np_div_def)

text \<open>
  Claim C7, amended. When the first item's score is zero, \<open>compare_movies\<close> raises nothing
  for a second item of the frame and a threshold in \<open>[0, 100]\<close>: it returns True when the
  second item's score is not zero (the quotient is infinite) and False when it is zero
  (the quotient is not a number).
\<close>

theorem compare_movies_zero_score:
  "first_score frame a = Some 0 \<and> first_score frame b = Some sb \<and> 0 \<le> t \<and> t \<le> 100
     \<longrightarrow> compare_movies frame a b t = Inr (sb \<noteq> 0)"
proof
  assume h: "first_score frame a = Some 0 \<and> first_score frame b = Some sb \<and> 0 \<le> t \<and> t \<le> 100"
  then have "compare_movies frame a b t
      = Inr (np_gt (np_abs (np_mul (np_div (0 - sb) 0) 100)) t)"
    by (simp add: compare_movies_found)
  also have "\<dots> = Inr (sb \<noteq> 0)"
    by (simp add: np_div_def)
  finally show "compare_movies frame a b t = Inr (sb \<noteq> 0)" .
qed

theorem compare_movies_zero_score_witness:
  "first_score example_df 13 = Some 0 \<and> first_score example_df 12 = Some 50
   \<and> (0::rat) \<le> 5 \<and> (5::rat) \<le> 100
   \<and> compare_movies example_df 13 12 5 = Inr True
   \<and> compare_movies example_df 13 13 5 = Inr False"
  using compare_movies_zero_score [of example_df 13 12 50 5]
    compare_movies_zero_score [of example_df 13 13 0 5]
  by (simp add: first_score_example)

text \<open>
  Claim C10. A first or second argument that is the \<^verbatim>\<open>movie_id\<close> of no row of the frame
  makes \<open>compare_movies\<close> raise: with a threshold in \<open>[0, 100]\<close> (the guard passed) the
  error is the \<^verbatim>\<open>IndexError\<close> of \<^verbatim>\<open>.iloc[0]\<close> on the empty selection; for no threshold
  is a boolean returned, and the only other error is the guard's \<^verbatim>\<open>ValueError\<close>.
\<close>

theorem compare_movies_unknown_item:
  "first_score frame a = None \<or> first_score frame b = None
     \<longrightarrow> (0 \<le> t \<and> t \<le> 100 \<longrightarrow> compare_movies frame a b t = Inl IndexError)
       \<and> (\<forall>r. compare_movies frame a b t \<noteq> Inr r)
       \<and> (compare_movies frame a b t = Inl IndexError
            \<or> compare_movies frame a b t = Inl ValueError)"
  by (auto simp: compare_movies_def split: option.splits)

theorem compare_movies_unknown_item_witness:
  "(0::rat) \<le> 5 \<and> (5::rat) \<le> 100 \<and> first_score example_df 14 = None
   \<and> compare_movies example_df 14 11 5 = Inl IndexError
   \<and> compare_movies example_df 11 14 5 = Inl IndexError"
  using compare_movies_unknown_item [of example_df 14 11 5]
    compare_movies_unknown_item [of example_df 11 14 5]
  by (simp add: first_score_example)

section \<open>Properties of the rounding\<close>

lemma round_half_even_error: "\<bar>of_int (round_half_even q) - q\<bar> \<le> 1 / 2"
proof -
  define f where "f = \<lfloor>q\<rfloor>"
  have "of_int f \<le> q" and "q < of_int f + 1"
    unfolding f_def by linarith+
  then show ?thesis
    unfolding round_half_even_def Let_def f_def [symmetric]
    by (simp add: abs_if)
qed

lemma log2_floor_lower:
  assumes "x \<noteq> 0"
  shows "2 powi (log2_floor x) \<le> \<bar>x\<bar>"
proof -
  obtain p q where pq: "quotient_of \<bar>x\<bar> = (p, q)"
    by (cases "quotient_of \<bar>x\<bar>")
  have q: "0 < q" using pq by (rule quotient_of_denom_pos)
  have x: "\<bar>x\<bar> = of_int p / of_int q" using pq by (rule quotient_of_div)
  have "0 < \<bar>x\<bar>" using assms by simp
  then have p: "0 < p"
    using x q by (simp add: zero_less_divide_iff)
  define d where "d = bitlen p - bitlen q"
  show ?thesis
  proof (cases "2 powi d \<le> \<bar>x\<bar>")
    case True
    then show ?thesis by (simp add: log2_floor_def pq d_def)
  next
    case False
    then have r: "log2_floor x = d - 1" by (simp add: log2_floor_def pq d_def)
    have bp: "1 \<le> bitlen p" using p by (simp add: bitlen_alt_def)
    have "(2::int) ^ nat (bitlen p - 1) \<le> p" using bitlen_bounds [OF p] by simp
    then have "of_int ((2::int) ^ nat (bitlen p - 1)) \<le> (of_int p :: rat)"
      by (simp only: of_int_le_iff)
    then have lo: "(2::rat) powi (bitlen p - 1) \<le> of_int p"
      using bp by (simp add: power_int_def)
    have "q < 2 ^ nat (bitlen q)" using bitlen_bounds [OF q] by simp
    then have "(of_int q :: rat) < of_int ((2::int) ^ nat (bitlen q))"
      by (simp only: of_int_less_iff)
    then have hi: "of_int q < (2::rat) powi (bitlen q)"
      using bitlen_nonneg [of q] by (simp add: power_int_def)
    have "(2::rat) powi (d - 1) = 2 powi (bitlen p - 1) / 2 powi (bitlen q)"
      unfolding d_def using power_int_diff [of "2::rat" "bitlen p - 1" "bitlen q"]
      by (simp add: algebra_simps)
    also have "\<dots> \<le> of_int p / 2 powi (bitlen q)"
      using lo by (simp add: divide_right_mono)
    also have "\<dots> \<le> of_int p / of_int q"
      using hi p q by (simp add: frac_le)
    finally show ?thesis using r x by simp
  qed
qed

lemma round_float_error:
  assumes "0 < p" and "2 powi emin \<le> \<bar>x\<bar>"
    and "\<bar>x\<bar> + \<bar>x\<bar> / 2 ^ p < 2 powi (emax + 1)"
  shows "\<exists>y. round_float p emin emax x = Finite y \<and> \<bar>y - x\<bar> \<le> \<bar>x\<bar> / 2 ^ p"
proof -
  have "(0::rat) < 2 powi emin"
    by (rule zero_less_power_int) simp
  with assms(2) have x0: "x \<noteq> 0"
    by (metis abs_zero not_le)
  define e where "e = max (log2_floor x) emin"
  define u where "u = (2::rat) powi (e - (int p - 1))"
  define y where "y = of_int (round_half_even (x / u)) * u"
  have u: "0 < u" by (simp add: u_def)
  have e: "2 powi e \<le> \<bar>x\<bar>"
    using log2_floor_lower [OF x0] assms(2) by (simp add: e_def max_def)
  have "u / 2 = 2 powi (e - (int p - 1)) / 2 powi 1"
    by (simp add: u_def)
  also have "\<dots> = 2 powi (e - int p)"
    using power_int_diff [of "2::rat" "e - (int p - 1)" 1] by (simp add: algebra_simps)
  also have "\<dots> = 2 powi e / 2 powi (int p)"
    using power_int_diff [of "2::rat" e "int p"] by simp
  also have "\<dots> = 2 powi e / 2 ^ p"
    by simp
  finally have half: "u / 2 = 2 powi e / 2 ^ p" .
  have "y - x = (of_int (round_half_even (x / u)) - x / u) * u"
    using u by (simp add: y_def algebra_simps)
  then have "\<bar>y - x\<bar> = \<bar>of_int (round_half_even (x / u)) - x / u\<bar> * u"
    using u by (simp add: abs_mult)
  also have "\<dots> \<le> 1 / 2 * u"
    using round_half_even_error [of "x / u"] u by (intro mult_right_mono) auto
  also have "\<dots> = 2 powi e / 2 ^ p"
    using half by simp
  also have "\<dots> \<le> \<bar>x\<bar> / 2 ^ p"
    using e by (simp add: divide_right_mono)
  finally have err: "\<bar>y - x\<bar> \<le> \<bar>x\<bar> / 2 ^ p" .
  have "\<bar>y\<bar> \<le> \<bar>x\<bar> + \<bar>y - x\<bar>" by simp
  with err assms(3) have "\<bar>y\<bar> < 2 powi (emax + 1)" by linarith
  then have "round_float p emin emax x = Finite y"
    using x0 by (simp add: round_float_def Let_def e_def [symmetric] u_def [symmetric]
        y_def [symmetric] not_le)
  with err show ?thesis by blast
qed

lemma f32_error:
  assumes "2 powi (- 126) \<le> \<bar>x\<bar>" and "\<bar>x\<bar> \<le> 2 powi 127"
  shows "\<exists>y. f32 x = Finite y \<and> \<bar>y - x\<bar> \<le> \<bar>x\<bar> / 2 ^ 24"
proof -
  have "\<bar>x\<bar> / 2 ^ 24 \<le> 2 powi 127 / 2 ^ 24"
    using assms(2) by (simp add: divide_right_mono)
  then have "\<bar>x\<bar> + \<bar>x\<bar> / 2 ^ 24 \<le> 2 powi 127 + 2 powi 127 / 2 ^ 24"
    using assms(2) by linarith
  also have "\<dots> < (2::rat) powi (127 + 1)"
    by simp
  finally show ?thesis
    unfolding f32_def using assms(1) by (intro round_float_error) auto
qed

lemma rel_bounds:
  assumes "\<bar>y - x\<bar> \<le> \<bar>x :: rat\<bar> / 2 ^ 24"
  shows "\<bar>x\<bar> * (1 - 1 / 2 ^ 24) \<le> \<bar>y\<bar>" and "\<bar>y\<bar> \<le> \<bar>x\<bar> * (1 + 1 / 2 ^ 24)"
proof -
  have "\<bar>x\<bar> - \<bar>y - x\<bar> \<le> \<bar>y\<bar>" and "\<bar>y\<bar> \<le> \<bar>x\<bar> + \<bar>y - x\<bar>"
    by linarith+
  with assms show "\<bar>x\<bar> * (1 - 1 / 2 ^ 24) \<le> \<bar>y\<bar>" and "\<bar>y\<bar> \<le> \<bar>x\<bar> * (1 + 1 / 2 ^ 24)"
    by (simp_all add: algebra_simps)
qed

lemma f32_rel:
  assumes "1 / 2 ^ 30 \<le> \<bar>x :: rat\<bar>" and "\<bar>x\<bar> \<le> 2 ^ 40"
  shows "\<exists>y. f32 x = Finite y \<and> \<bar>x\<bar> * (1 - 1 / 2 ^ 24) \<le> \<bar>y\<bar> \<and> \<bar>y\<bar> \<le> \<bar>x\<bar> * (1 + 1 / 2 ^ 24)"
proof -
  have "(2::rat) powi (- 126) \<le> 1 / 2 ^ 30"
    by (simp add: power_int_minus field_simps)
  then have lo: "2 powi (- 126) \<le> \<bar>x\<bar>"
    using assms(1) by linarith
  have "(2::rat) ^ 40 \<le> 2 powi 127"
    by simp
  then have hi: "\<bar>x\<bar> \<le> 2 powi 127"
    using assms(2) by linarith
  from f32_error [OF lo hi] obtain y where "f32 x = Finite y" "\<bar>y - x\<bar> \<le> \<bar>x\<bar> / 2 ^ 24"
    by blast
  then show ?thesis
    using rel_bounds [of y x] by blast
qed

lemma f32_zero: "f32 0 = Finite 0"
  by (simp add: f32_def round_float_def)

lemma popularity_score_half:
  assumes "popularity_score s" and "s \<noteq> 0"
  shows "1 / 2 \<le> s"
proof -
  define n where "n = \<lfloor>2 * s\<rfloor>"
  have "0 \<le> s" and i: "of_int n = 2 * s"
    using assms(1) unfolding popularity_score_def n_def by blast+
  with assms(2) have "(0::rat) < of_int n" by linarith
  then have "0 < n" by (simp only: of_int_0_less_iff)
  then have "1 \<le> n" by linarith
  then have "(1::rat) \<le> of_int n" by (simp only: of_int_1_le_iff)
  with i show ?thesis by linarith
qed

lemma popularity_score_diff:
  assumes "popularity_score sa" and "popularity_score sb" and "sa \<noteq> sb"
  shows "1 / 2 \<le> \<bar>sa - sb\<bar>" and "\<bar>sa - sb\<bar> \<le> 2 ^ 22"
proof -
  define m where "m = \<lfloor>2 * sa\<rfloor>"
  define n where "n = \<lfloor>2 * sb\<rfloor>"
  have m: "of_int m = 2 * sa" and n: "of_int n = 2 * sb"
    using assms(1,2) unfolding popularity_score_def m_def n_def by blast+
  have "m \<noteq> n"
    using m n assms(3) by auto
  then have "1 \<le> \<bar>m - n\<bar>" by linarith
  then have "(1::rat) \<le> of_int \<bar>m - n\<bar>" by (simp only: of_int_1_le_iff)
  also have "of_int \<bar>m - n\<bar> = \<bar>(of_int m :: rat) - of_int n\<bar>" by simp
  also have "\<dots> = \<bar>2 * sa - 2 * sb\<bar>" by (simp only: m n)
  finally show "1 / 2 \<le> \<bar>sa - sb\<bar>" by linarith
  have "0 \<le> sa" "sa < 2 ^ 22" "0 \<le> sb" "sb < 2 ^ 22"
    using assms(1,2) unfolding popularity_score_def by blast+
  then show "\<bar>sa - sb\<bar> \<le> 2 ^ 22"
    by linarith
qed

lemma percentage_float32_bounds:
  assumes "popularity_score sa" and "popularity_score sb" and "0 < sa"
  shows "\<exists>v. np_abs (np_mul32 (np_div32 (np_sub32 sa sb) sa) 100) = Finite v
     \<and> \<bar>sa - sb\<bar> / sa * 100 * (1 - 1 / 2 ^ 24) ^ 3 \<le> v
     \<and> v \<le> \<bar>sa - sb\<bar> / sa * 100 * (1 + 1 / 2 ^ 24) ^ 3"
proof (cases "sa = sb")
  case True
  then have "np_abs (np_mul32 (np_div32 (np_sub32 sa sb) sa) 100) = Finite 0"
    using assms(3) by (simp add: np_sub32_def f32_zero)
  with True show ?thesis by simp
next
  case False
  define lo :: rat where "lo = 1 - 1 / 2 ^ 24"
  define hi :: rat where "hi = 1 + 1 / 2 ^ 24"
  have lo: "0 < lo" "1 / 2 \<le> lo" and hi: "0 < hi" "hi \<le> 2"
    by (simp_all add: lo_def hi_def)
  have "sa < 2 ^ 22"
    using assms(1) unfolding popularity_score_def by blast
  with popularity_score_half [OF assms(1)] assms(3) have sa: "1 / 2 \<le> sa" "sa < 2 ^ 22"
    by simp_all
  define d where "d = sa - sb"
  have d: "1 / 2 \<le> \<bar>d\<bar>" "\<bar>d\<bar> \<le> 2 ^ 22"
    using popularity_score_diff [OF assms(1,2) False] by (simp_all add: d_def)
  \<comment> \<open>the subtraction\<close>
  have "\<exists>y. f32 d = Finite y \<and> \<bar>d\<bar> * (1 - 1 / 2 ^ 24) \<le> \<bar>y\<bar> \<and> \<bar>y\<bar> \<le> \<bar>d\<bar> * (1 + 1 / 2 ^ 24)"
    using d by (intro f32_rel) auto
  then obtain d1 where d1: "f32 d = Finite d1" "\<bar>d\<bar> * lo \<le> \<bar>d1\<bar>" "\<bar>d1\<bar> \<le> \<bar>d\<bar> * hi"
    unfolding lo_def hi_def by blast
  have d1_lo: "1 / 4 \<le> \<bar>d1\<bar>"
  proof -
    have "1 / 2 * (1 / 2) \<le> \<bar>d\<bar> * lo"
      using d(1) lo(2) by (intro mult_mono) auto
    with d1(2) show ?thesis by simp
  qed
  have d1_hi: "\<bar>d1\<bar> \<le> 2 ^ 23"
  proof -
    have "\<bar>d\<bar> * hi \<le> 2 ^ 22 * 2"
      using d(2) hi by (intro mult_mono) auto
    with d1(3) show ?thesis by simp
  qed
  \<comment> \<open>the division\<close>
  define q where "q = d1 / sa"
  have q_abs: "\<bar>q\<bar> = \<bar>d1\<bar> / sa"
    using assms(3) by (simp add: q_def abs_divide)
  have q_lo: "1 / 2 ^ 24 \<le> \<bar>q\<bar>"
  proof -
    have "(1 / 4) / 2 ^ 22 \<le> \<bar>d1\<bar> / sa"
      using d1_lo sa assms(3) by (intro frac_le) auto
    then show ?thesis by (simp add: q_abs)
  qed
  have q_hi: "\<bar>q\<bar> \<le> 2 ^ 24"
  proof -
    have "\<bar>d1\<bar> / sa \<le> 2 ^ 23 / (1 / 2)"
      using d1_hi sa by (intro frac_le) auto
    then show ?thesis by (simp add: q_abs)
  qed
  have "\<exists>y. f32 q = Finite y \<and> \<bar>q\<bar> * (1 - 1 / 2 ^ 24) \<le> \<bar>y\<bar> \<and> \<bar>y\<bar> \<le> \<bar>q\<bar> * (1 + 1 / 2 ^ 24)"
    using q_lo q_hi by (intro f32_rel) auto
  then obtain q1 where q1: "f32 q = Finite q1" "\<bar>q\<bar> * lo \<le> \<bar>q1\<bar>" "\<bar>q1\<bar> \<le> \<bar>q\<bar> * hi"
    unfolding lo_def hi_def by blast
  have q1_lo: "1 / 2 ^ 25 \<le> \<bar>q1\<bar>"
  proof -
    have "1 / 2 ^ 24 * (1 / 2) \<le> \<bar>q\<bar> * lo"
      using q_lo lo(2) by (intro mult_mono) auto
    with q1(2) show ?thesis by simp
  qed
  have q1_hi: "\<bar>q1\<bar> \<le> 2 ^ 25"
  proof -
    have "\<bar>q\<bar> * hi \<le> 2 ^ 24 * 2"
      using q_hi hi by (intro mult_mono) auto
    with q1(3) show ?thesis by simp
  qed
  \<comment> \<open>the multiplication\<close>
  define p where "p = q1 * 100"
  have p_abs: "\<bar>p\<bar> = \<bar>q1\<bar> * 100"
    by (simp add: p_def abs_mult)
  have p_lo: "1 / 2 ^ 30 \<le> \<bar>p\<bar>"
    using q1_lo by (simp add: p_abs)
  have p_hi: "\<bar>p\<bar> \<le> 2 ^ 40"
    using q1_hi by (simp add: p_abs)
  have "\<exists>y. f32 p = Finite y \<and> \<bar>p\<bar> * (1 - 1 / 2 ^ 24) \<le> \<bar>y\<bar> \<and> \<bar>y\<bar> \<le> \<bar>p\<bar> * (1 + 1 / 2 ^ 24)"
    using p_lo p_hi by (intro f32_rel) auto
  then obtain p1 where p1: "f32 p = Finite p1" "\<bar>p\<bar> * lo \<le> \<bar>p1\<bar>" "\<bar>p1\<bar> \<le> \<bar>p\<bar> * hi"
    unfolding lo_def hi_def by blast
  have res: "np_abs (np_mul32 (np_div32 (np_sub32 sa sb) sa) 100) = Finite \<bar>p1\<bar>"
    using assms(3) d1(1) q1(1) p1(1)
    by (simp add: np_sub32_def d_def [symmetric] q_def [symmetric] p_def [symmetric])
  \<comment> \<open>the three relative errors together\<close>
  have upper: "\<bar>p1\<bar> \<le> \<bar>d\<bar> / sa * 100 * hi ^ 3"
  proof -
    have "\<bar>q\<bar> \<le> \<bar>d\<bar> * hi / sa"
      unfolding q_abs using d1(3) assms(3) by (simp add: divide_right_mono)
    then have "\<bar>q\<bar> * hi \<le> \<bar>d\<bar> * hi / sa * hi"
      using hi(1) by (intro mult_right_mono) auto
    with q1(3) have "\<bar>q1\<bar> \<le> \<bar>d\<bar> * hi / sa * hi" by linarith
    then have "\<bar>q1\<bar> * 100 \<le> \<bar>d\<bar> * hi / sa * hi * 100"
      by (intro mult_right_mono) auto
    then have "\<bar>p\<bar> \<le> \<bar>d\<bar> * hi / sa * hi * 100"
      by (simp only: p_abs)
    then have "\<bar>p\<bar> * hi \<le> \<bar>d\<bar> * hi / sa * hi * 100 * hi"
      using hi(1) by (intro mult_right_mono) auto
    with p1(3) have "\<bar>p1\<bar> \<le> \<bar>d\<bar> * hi / sa * hi * 100 * hi" by linarith
    also have "\<dots> = \<bar>d\<bar> / sa * 100 * hi ^ 3"
      by (simp add: power3_eq_cube)
    finally show ?thesis .
  qed
  have lower: "\<bar>d\<bar> / sa * 100 * lo ^ 3 \<le> \<bar>p1\<bar>"
  proof -
    have "\<bar>d\<bar> * lo / sa \<le> \<bar>q\<bar>"
      unfolding q_abs using d1(2) assms(3) by (simp add: divide_right_mono)
    then have "\<bar>d\<bar> * lo / sa * lo \<le> \<bar>q\<bar> * lo"
      using lo(1) by (intro mult_right_mono) auto
    with q1(2) have "\<bar>d\<bar> * lo / sa * lo \<le> \<bar>q1\<bar>" by linarith
    then have "\<bar>d\<bar> * lo / sa * lo * 100 \<le> \<bar>q1\<bar> * 100"
      by (intro mult_right_mono) auto
    then have "\<bar>d\<bar> * lo / sa * lo * 100 \<le> \<bar>p\<bar>"
      by (simp only: p_abs)
    then have "\<bar>d\<bar> * lo / sa * lo * 100 * lo \<le> \<bar>p\<bar> * lo"
      using lo(1) by (intro mult_right_mono) auto
    with p1(2) have "\<bar>d\<bar> * lo / sa * lo * 100 * lo \<le> \<bar>p1\<bar>" by linarith
    moreover have "\<bar>d\<bar> * lo / sa * lo * 100 * lo = \<bar>d\<bar> / sa * 100 * lo ^ 3"
      by (simp add: power3_eq_cube)
    ultimately show ?thesis by (simp only:)
  qed
  from res lower upper show ?thesis
    unfolding d_def lo_def hi_def by blast
qed

lemma round_half_even_nonneg:
  assumes "0 \<le> q"
  shows "0 \<le> round_half_even q"
proof -
  have "\<bar>of_int (round_half_even q) - q\<bar> \<le> 1 / 2"
    by (rule round_half_even_error)
  with assms have "(- 1 :: rat) < of_int (round_half_even q)" by linarith
  then have "(of_int (- 1) :: rat) < of_int (round_half_even q)" by simp
  then have "- 1 < round_half_even q" by (simp only: of_int_less_iff)
  then show ?thesis by linarith
qed

lemma f32_threshold:
  assumes "0 \<le> t" and "t \<le> 100"
  shows "\<exists>y. f32 t = Finite y \<and> 0 \<le> y"
proof (cases "t = 0")
  case True
  then show ?thesis by (simp add: f32_zero)
next
  case False
  with assms(1) have t: "0 < t" by simp
  define e where "e = max (log2_floor t) (- 126)"
  define u :: rat where "u = 2 powi (e - 23)"
  define r where "r = round_half_even (t / u)"
  have u: "0 < u" by (simp add: u_def)
  have "u \<le> 1"
  proof (cases "log2_floor t \<le> - 126")
    case True
    then have "e - 23 \<le> 0" by (simp add: e_def)
    then have "(2::rat) powi (e - 23) \<le> 2 powi 0"
      by (intro power_int_increasing) auto
    then show ?thesis by (simp add: u_def)
  next
    case False
    then have e: "e = log2_floor t" by (simp add: e_def)
    have "(2::rat) powi (e - 23) \<le> 2 powi e"
      by (intro power_int_increasing) auto
    also have "\<dots> \<le> \<bar>t\<bar>"
      unfolding e using log2_floor_lower [of t] t by simp
    finally have "u \<le> t / 1" using t by (simp add: u_def)
    have "(2::rat) powi e \<le> 100"
      using \<open>2 powi e \<le> \<bar>t\<bar>\<close> assms by simp
    have "e < 7"
    proof (rule ccontr)
      assume "\<not> e < 7"
      then have "(2::rat) powi 7 \<le> 2 powi e"
        by (intro power_int_increasing) auto
      with \<open>2 powi e \<le> 100\<close> show False by simp
    qed
    then have "e - 23 \<le> 0" by simp
    then have "(2::rat) powi (e - 23) \<le> 2 powi 0"
      by (intro power_int_increasing) auto
    then show ?thesis by (simp add: u_def)
  qed
  have "0 \<le> t / u" using t u by simp
  then have r0: "0 \<le> r" unfolding r_def by (rule round_half_even_nonneg)
  have "\<bar>of_int r - t / u\<bar> \<le> 1 / 2"
    unfolding r_def by (rule round_half_even_error)
  then have "of_int r \<le> t / u + 1 / 2" by linarith
  then have "of_int r * u \<le> (t / u + 1 / 2) * u"
    using u by (intro mult_right_mono) auto
  also have "\<dots> = t + u / 2"
    using u by (simp add: field_simps)
  finally have hi: "of_int r * u \<le> 101"
    using assms(2) \<open>u \<le> 1\<close> by linarith
  have y0: "0 \<le> of_int r * u"
    using r0 u by simp
  have "\<not> (2::rat) powi (127 + 1) \<le> \<bar>of_int r * u\<bar>"
    using hi y0 by simp
  then have "f32 t = Finite (of_int r * u)"
    using False
    by (simp add: f32_def round_float_def Let_def e_def [symmetric] u_def [symmetric] r_def [symmetric])
  with y0 show ?thesis by blast
qed

section \<open>compare\_movies in float32 arithmetic\<close>

lemma compare_movies_float32_found:
  assumes "first_score frame a = Some sa" and "first_score frame b = Some sb"
    and "0 \<le> t" and "t \<le> 100"
  shows "compare_movies_float32 frame a b t
    = Inr (np_greater (np_abs (np_mul32 (np_div32 (np_sub32 sa sb) sa) 100)) (f32 t))"
  using assms by (simp add: compare_movies_float32_def not_less)

text \<open>
  Claim C5, amended. For two items of the frame whose scores are halves of natural
  numbers below \<open>2 ^ 22\<close>, a positive score of the first item and a threshold in
  \<open>[0, 100]\<close>, \<open>compare_movies_float32\<close> computes \<open>|(score_a - score_b) / score_a * 100|\<close> in
  \<^verbatim>\<open>float32\<close> arithmetic, the denominator being the first item's score, and returns
  whether the computed value strictly exceeds the threshold (converted to \<^verbatim>\<open>float32\<close>).
  The computed value lies between the exact percentage times \<open>(1 - 2^-24)^3\<close> and times
  \<open>(1 + 2^-24)^3\<close>: for a \<^verbatim>\<open>float32\<close> threshold the result is True when the exact
  percentage exceeds the threshold by more than that margin, and False when it stays
  below it by that margin. There are items whose comparison differs when the arguments
  are swapped.
\<close>

theorem compare_movies_float32_percentage:
  "(first_score frame a = Some sa \<and> first_score frame b = Some sb \<and> 0 \<le> t \<and> t \<le> 100
      \<and> popularity_score sa \<and> popularity_score sb \<and> 0 < sa
    \<longrightarrow> (\<exists>v. compare_movies_float32 frame a b t = Inr (np_greater (Finite v) (f32 t))
          \<and> \<bar>sa - sb\<bar> / sa * 100 * (1 - 1 / 2 ^ 24) ^ 3 \<le> v
          \<and> v \<le> \<bar>sa - sb\<bar> / sa * 100 * (1 + 1 / 2 ^ 24) ^ 3))
   \<and> (first_score frame a = Some sa \<and> first_score frame b = Some sb \<and> 0 \<le> t \<and> t \<le> 100
      \<and> popularity_score sa \<and> popularity_score sb \<and> 0 < sa \<and> f32 t = Finite t
      \<and> t < \<bar>sa - sb\<bar> / sa * 100 * (1 - 1 / 2 ^ 24) ^ 3
    \<longrightarrow> compare_movies_float32 frame a b t = Inr True)
   \<and> (first_score frame a = Some sa \<and> first_score frame b = Some sb \<and> 0 \<le> t \<and> t \<le> 100
      \<and> popularity_score sa \<and> popularity_score sb \<and> 0 < sa \<and> f32 t = Finite t
      \<and> \<bar>sa - sb\<bar> / sa * 100 * (1 + 1 / 2 ^ 24) ^ 3 \<le> t
    \<longrightarrow> compare_movies_float32 frame a b t = Inr False)
   \<and> (\<exists>frame' a' b' t'. compare_movies_float32 frame' a' b' t' = Inr False
          \<and> compare_movies_float32 frame' b' a' t' = Inr True)"
proof (intro conjI impI)
  assume h: "first_score frame a = Some sa \<and> first_score frame b = Some sb \<and> 0 \<le> t \<and> t \<le> 100
      \<and> popularity_score sa \<and> popularity_score sb \<and> 0 < sa"
  then obtain v where "np_abs (np_mul32 (np_div32 (np_sub32 sa sb) sa) 100) = Finite v"
    and "\<bar>sa - sb\<bar> / sa * 100 * (1 - 1 / 2 ^ 24) ^ 3 \<le> v"
    and "v \<le> \<bar>sa - sb\<bar> / sa * 100 * (1 + 1 / 2 ^ 24) ^ 3"
    using percentage_float32_bounds [of sa sb] by blast
  moreover from h have "compare_movies_float32 frame a b t
    = Inr (np_greater (np_abs (np_mul32 (np_div32 (np_sub32 sa sb) sa) 100)) (f32 t))"
    by (intro compare_movies_float32_found) auto
  ultimately show "\<exists>v. compare_movies_float32 frame a b t = Inr (np_greater (Finite v) (f32 t))
          \<and> \<bar>sa - sb\<bar> / sa * 100 * (1 - 1 / 2 ^ 24) ^ 3 \<le> v
          \<and> v \<le> \<bar>sa - sb\<bar> / sa * 100 * (1 + 1 / 2 ^ 24) ^ 3"
    by auto
next
  assume h: "first_score frame a = Some sa \<and> first_score frame b = Some sb \<and> 0 \<le> t \<and> t \<le> 100
      \<and> popularity_score sa \<and> popularity_score sb \<and> 0 < sa \<and> f32 t = Finite t
      \<and> t < \<bar>sa - sb\<bar> / sa * 100 * (1 - 1 / 2 ^ 24) ^ 3"
  then obtain v where v: "np_abs (np_mul32 (np_div32 (np_sub32 sa sb) sa) 100) = Finite v"
    and "\<bar>sa - sb\<bar> / sa * 100 * (1 - 1 / 2 ^ 24) ^ 3 \<le> v"
    using percentage_float32_bounds [of sa sb] by blast
  with h have "t < v" by linarith
  moreover from h have "compare_movies_float32 frame a b t
    = Inr (np_greater (np_abs (np_mul32 (np_div32 (np_sub32 sa sb) sa) 100)) (f32 t))"
    by (intro compare_movies_float32_found) auto
  ultimately show "compare_movies_float32 frame a b t = Inr True"
    using h v by simp
next
  assume h: "first_score frame a = Some sa \<and> first_score frame b = Some sb \<and> 0 \<le> t \<and> t \<le> 100
      \<and> popularity_score sa \<and> popularity_score sb \<and> 0 < sa \<and> f32 t = Finite t
      \<and> \<bar>sa - sb\<bar> / sa * 100 * (1 + 1 / 2 ^ 24) ^ 3 \<le> t"
  then obtain v where v: "np_abs (np_mul32 (np_div32 (np_sub32 sa sb) sa) 100) = Finite v"
    and "v \<le> \<bar>sa - sb\<bar> / sa * 100 * (1 + 1 / 2 ^ 24) ^ 3"
    using percentage_float32_bounds [of sa sb] by blast
  with h have "\<not> t < v" by linarith
  moreover from h have "compare_movies_float32 frame a b t
    = Inr (np_greater (np_abs (np_mul32 (np_div32 (np_sub32 sa sb) sa) 100)) (f32 t))"
    by (intro compare_movies_float32_found) auto
  ultimately show "compare_movies_float32 frame a b t = Inr False"
    using h v by simp
next
  have "compare_movies_float32 five_two 11 12 100 = Inr False"
    and "compare_movies_float32 five_two 12 11 100 = Inr True"
    by code_simp+
  then show "\<exists>frame' a' b' t'. compare_movies_float32 frame' a' b' t' = Inr False
      \<and> compare_movies_float32 frame' b' a' t' = Inr True"
    by blast
qed

text \<open>
  Claim C5, as stated, at the scores 5 and 2 and the threshold 60: the exact percentage
  \<open>|5 - 2| / 5 * 100\<close> is 60 and does not strictly exceed the threshold, but the quotient
  rounds to 0.60000002 and the product to 60.000004, and \<open>compare_movies_float32\<close>
  returns True.
\<close>

theorem compare_movies_float32_counterexample:
  "first_score five_two 11 = Some 5 \<and> first_score five_two 12 = Some 2
   \<and> compare_movies_float32 five_two 11 12 60 = Inr True
   \<and> \<not> (60 :: rat) < \<bar>5 - 2\<bar> / 5 * 100"
  by code_simp

text \<open>The amended claim C5 at the same scores and the thresholds 50 and 70.\<close>

theorem compare_movies_float32_percentage_witness:
  "first_score five_two 11 = Some 5 \<and> first_score five_two 12 = Some 2
   \<and> popularity_score 5 \<and> popularity_score 2 \<and> f32 50 = Finite 50 \<and> f32 70 = Finite 70
   \<and> (50 :: rat) < \<bar>5 - 2\<bar> / 5 * 100 * (1 - 1 / 2 ^ 24) ^ 3
   \<and> \<bar>5 - 2\<bar> / 5 * 100 * (1 + 1 / 2 ^ 24) ^ 3 \<le> (70 :: rat)
   \<and> compare_movies_float32 five_two 11 12 50 = Inr True
   \<and> compare_movies_float32 five_two 11 12 70 = Inr False"
proof -
  have f: "first_score five_two 11 = Some 5" "first_score five_two 12 = Some 2"
    and p: "popularity_score 5" "popularity_score 2"
    and t: "f32 50 = Finite 50" "f32 70 = Finite 70"
    by code_simp+
  have lo: "(50 :: rat) < \<bar>5 - 2\<bar> / 5 * 100 * (1 - 1 / 2 ^ 24) ^ 3"
    and hi: "\<bar>5 - 2\<bar> / 5 * 100 * (1 + 1 / 2 ^ 24) ^ 3 \<le> (70 :: rat)"
    by code_simp+
  have "compare_movies_float32 five_two 11 12 50 = Inr True"
    using compare_movies_float32_percentage [of five_two 11 5 12 2 50] f p t lo by simp
  moreover have "compare_movies_float32 five_two 11 12 70 = Inr False"
    using compare_movies_float32_percentage [of five_two 11 5 12 2 70] f p t hi by simp
  ultimately show ?thesis
    using f p t lo hi by simp
qed

text \<open>
  The exact and the rounded comparison raise the same errors, and they return the same
  boolean for popularity scores when the first score is zero, when the two scores are
  equal, and when the threshold is zero.
\<close>

lemma compare_movies_float32_error:
  "compare_movies_float32 frame a b t = Inl e \<longleftrightarrow> compare_movies frame a b t = Inl e"
  by (simp add: compare_movies_float32_def compare_movies_def split: option.splits)

lemma compare_movies_float32_agrees:
  assumes a: "first_score frame a = Some sa" and b: "first_score frame b = Some sb"
    and pa: "popularity_score sa" and pb: "popularity_score sb"
    and t: "0 \<le> t" "t \<le> 100"
    and c: "sa = 0 \<or> sa = sb \<or> t = 0"
  shows "compare_movies_float32 frame a b t = compare_movies frame a b t"
proof -
  obtain y where y: "f32 t = Finite y" "0 \<le> y"
    using f32_threshold [OF t] by blast
  define v where "v = np_abs (np_mul32 (np_div32 (np_sub32 sa sb) sa) 100)"
  define w where "w = np_abs (np_mul (np_div (sa - sb) sa) 100)"
  have sa0: "0 \<le> sa" and sb0: "0 \<le> sb"
    using pa pb unfolding popularity_score_def by blast+
  have "np_greater v (Finite y) = np_gt w t"
  proof (cases "sa = 0")
    case True
    show ?thesis
    proof (cases "sb = 0")
      case True
      with \<open>sa = 0\<close> show ?thesis
        by (simp add: v_def w_def np_sub32_def f32_zero np_div_def)
    next
      case False
      have "1 / 2 \<le> \<bar>- sb\<bar>" "\<bar>- sb\<bar> \<le> 2 ^ 22"
        using popularity_score_diff [OF pa pb] True False by simp_all
      then have "\<exists>z. f32 (- sb) = Finite z \<and> \<bar>- sb\<bar> * (1 - 1 / 2 ^ 24) \<le> \<bar>z\<bar>
          \<and> \<bar>z\<bar> \<le> \<bar>- sb\<bar> * (1 + 1 / 2 ^ 24)"
        by (intro f32_rel) auto
      then obtain z where z: "f32 (- sb) = Finite z" "\<bar>- sb\<bar> * (1 - 1 / 2 ^ 24) \<le> \<bar>z\<bar>"
        by blast
      have "0 < \<bar>- sb\<bar> * (1 - 1 / 2 ^ 24)"
        using False by simp
      with z(2) have "z \<noteq> 0" by auto
      then have "v = PosInf"
        using z(1) True by (simp add: v_def np_sub32_def)
      moreover have "w = PosInf"
        using True False sb0 by (simp add: w_def np_div_def)
      ultimately show ?thesis by simp
    qed
  next
    case False
    with sa0 have pos: "0 < sa" by simp
    obtain x where x: "v = Finite x"
      "\<bar>sa - sb\<bar> / sa * 100 * (1 - 1 / 2 ^ 24) ^ 3 \<le> x"
      "x \<le> \<bar>sa - sb\<bar> / sa * 100 * (1 + 1 / 2 ^ 24) ^ 3"
      using percentage_float32_bounds [OF pa pb pos] unfolding v_def by blast
    have w: "w = Finite \<bar>(sa - sb) / sa * 100\<bar>"
      unfolding w_def using False by (rule percentage_nonzero)
    show ?thesis
    proof (cases "sa = sb")
      case True
      with x(2,3) have "x = 0" by simp
      with x(1) w True y(2) t(1) show ?thesis by simp
    next
      case False
      with c \<open>sa \<noteq> 0\<close> have t0: "t = 0" by simp
      then have y0: "y = 0" using y(1) by (simp add: f32_zero)
      have "0 < \<bar>sa - sb\<bar> / sa" using False pos by simp
      moreover have "(0::rat) < 100 * (1 - 1 / 2 ^ 24) ^ 3" by simp
      ultimately have "0 < \<bar>sa - sb\<bar> / sa * (100 * (1 - 1 / 2 ^ 24) ^ 3)"
        by (rule mult_pos_pos)
      then have "0 < \<bar>sa - sb\<bar> / sa * 100 * (1 - 1 / 2 ^ 24) ^ 3"
        by (simp only: mult.assoc)
      with x(2) have "0 < x" by linarith
      moreover have "0 < \<bar>(sa - sb) / sa * 100\<bar>" using False pos by simp
      ultimately show ?thesis using x(1) w t0 y0 by simp
    qed
  qed
  then show ?thesis
    unfolding compare_movies_float32_found [OF a b t] compare_movies_found [OF a b t] v_def w_def y(1)
    by simp
qed

section \<open>Properties of the interaction matrix\<close>


lemma filter_key_single:
  assumes "distinct (map f xs)" and "r \<in> set xs"
  shows "filter (\<lambda>x. f x = f r) xs = [r]"
  using assms
proof (induction xs)
  case Nil
  then show ?case by simp
next
  case (Cons x xs)
  show ?case
  proof (cases "x = r")
    case True
    with Cons.prems have "f r \<notin> f ` set xs" by simp
    then have "filter (\<lambda>y. f y = f r) xs = []"
      unfolding filter_empty_conv by (metis imageI)
    with True show ?thesis by simp
  next
    case False
    with Cons.prems have "r \<in> set xs" and "f x \<noteq> f r" by auto
    with Cons show ?thesis by simp
  qed
qed

lemma summed_distinct:
  assumes "distinct (map (\<lambda>r. (r_user_id r, r_movie_id r)) ratings)" and "r \<in> set ratings"
  shows "summed ratings (r_user_id r) (r_movie_id r) = rating r"
proof -
  have "filter (\<lambda>x. (r_user_id x, r_movie_id x) = (r_user_id r, r_movie_id r)) ratings = [r]"
    using assms by (rule filter_key_single)
  then show ?thesis by (simp add: summed_def)
qed

lemma map_of_tabulate:
  "map_of (map (\<lambda>c. (c, g c)) cs) i = (if i \<in> set cs then Some (g i) else None)"
  by (induction cs) auto

lemma set_stored_cols:
  "set (stored_cols ratings u) = r_movie_id ` {r \<in> set ratings. r_user_id r = u}"
  by (auto simp: stored_cols_def)

lemma get_sparse_shape:
  assumes "get_sparse ratings = Inr X"
  shows "length (csr_rows X) = Max (set (map r_user_id ratings)) + 1"
    and "csr_ncols X = Max (set (map r_movie_id ratings)) + 1"
    and "ratings \<noteq> []"
  using assms by (auto simp: get_sparse_def split: if_splits)

lemma get_sparse_in_shape:
  assumes "get_sparse ratings = Inr X" and "r \<in> set ratings"
  shows "r_user_id r < length (csr_rows X)" and "r_movie_id r < csr_ncols X"
proof -
  have "r_user_id r \<le> Max (set (map r_user_id ratings))"
    using assms(2) by (intro Max_ge) auto
  then show "r_user_id r < length (csr_rows X)"
    using get_sparse_shape(1) [OF assms(1)] by simp
  have "r_movie_id r \<le> Max (set (map r_movie_id ratings))"
    using assms(2) by (intro Max_ge) auto
  then show "r_movie_id r < csr_ncols X"
    using get_sparse_shape(2) [OF assms(1)] by simp
qed

lemma getitem_get_sparse:
  assumes "get_sparse ratings = Inr X" and "u < length (csr_rows X)" and "i < csr_ncols X"
  shows "getitem X u i =
    Inr (if i \<in> set (stored_cols ratings u) then astype_int32 (summed ratings u i) else 0)"
proof -
  have u: "u < Max (set (map r_user_id ratings)) + 1"
    using assms(2) get_sparse_shape(1) [OF assms(1)] by simp
  have "csr_rows X = map (\<lambda>u. map (\<lambda>c. (c, astype_int32 (summed ratings u c))) (stored_cols ratings u))
      [0 ..< Max (set (map r_user_id ratings)) + 1]"
    using assms(1) by (auto simp: get_sparse_def split: if_splits)
  then have "csr_rows X ! u = map (\<lambda>c. (c, astype_int32 (summed ratings u c))) (stored_cols ratings u)"
    using u by (simp del: upt_Suc)
  then show ?thesis
    using assms(2,3) by (simp add: getitem_def map_of_tabulate)
qed

lemma astype_int32_exact:
  assumes "- (2 ^ 31) \<le> w" and "w < 2 ^ 31"
  shows "astype_int32 (of_int w) = w"
  using assms by (simp add: astype_int32_def)

text \<open>
  Claim C8, amended. For ratings with at most one row per (user, movie) pair, reading the
  built matrix at a supplied pair gives the supplied rating converted to a 32-bit integer
  (its fraction cut off), which is the rating itself when the rating is an integer of the
  32-bit range; and a pair of the matrix's shape that is not supplied reads as 0.
\<close>

theorem get_sparse_read_back:
  "get_sparse ratings = Inr X \<longrightarrow>
     (\<forall>r \<in> set ratings. distinct (map (\<lambda>r. (r_user_id r, r_movie_id r)) ratings) \<longrightarrow>
        getitem X (r_user_id r) (r_movie_id r) = Inr (astype_int32 (rating r))
        \<and> (\<forall>w. rating r = of_int w \<and> - (2 ^ 31) \<le> w \<and> w < 2 ^ 31 \<longrightarrow>
              getitem X (r_user_id r) (r_movie_id r) = Inr w))
     \<and> (\<forall>u i. u < length (csr_rows X) \<and> i < csr_ncols X
           \<and> (u, i) \<notin> set (map (\<lambda>r. (r_user_id r, r_movie_id r)) ratings) \<longrightarrow>
        getitem X u i = Inr 0)"
proof (intro impI conjI ballI allI)
  fix r
  assume X: "get_sparse ratings = Inr X" and r: "r \<in> set ratings"
    and d: "distinct (map (\<lambda>r. (r_user_id r, r_movie_id r)) ratings)"
  have "r_movie_id r \<in> set (stored_cols ratings (r_user_id r))"
    using r by (auto simp: set_stored_cols)
  then show g: "getitem X (r_user_id r) (r_movie_id r) = Inr (astype_int32 (rating r))"
    using getitem_get_sparse [OF X get_sparse_in_shape [OF X r]] summed_distinct [OF d r]
    by simp
  fix w
  assume "rating r = of_int w \<and> - (2 ^ 31) \<le> w \<and> w < 2 ^ 31"
  then show "getitem X (r_user_id r) (r_movie_id r) = Inr w"
    using g astype_int32_exact [of w] by simp
next
  fix u i
  assume X: "get_sparse ratings = Inr X"
    and h: "u < length (csr_rows X) \<and> i < csr_ncols X
           \<and> (u, i) \<notin> set (map (\<lambda>r. (r_user_id r, r_movie_id r)) ratings)"
  then have "i \<notin> set (stored_cols ratings u)"
    by (auto simp: set_stored_cols)
  then show "getitem X u i = Inr 0"
    using getitem_get_sparse [OF X, of u i] h by simp
qed

lemma get_sparse_example: "get_sparse example_ratings = Inr example_matrix"
  by code_simp

text \<open>
  Claim C8, as stated, at a rating of \<open>7/2\<close>: the matrix is converted to \<^verbatim>\<open>int32\<close> and
  the pair reads back as 3, not as the weight supplied.
\<close>

theorem get_sparse_read_back_counterexample:
  "get_sparse example_ratings = Inr example_matrix
   \<and> rating (example_ratings ! 0) = 7 / 2
   \<and> getitem example_matrix 0 1 = Inr 3
   \<and> (of_int 3 :: rat) \<noteq> 7 / 2"
  by code_simp

text \<open>The amended claim C8 on the example ratings.\<close>

theorem get_sparse_read_back_witness:
  "get_sparse example_ratings = Inr example_matrix
   \<and> distinct (map (\<lambda>r. (r_user_id r, r_movie_id r)) example_ratings)
   \<and> getitem example_matrix 0 1 = Inr (astype_int32 (7 / 2))
   \<and> getitem example_matrix 2 0 = Inr 4
   \<and> getitem example_matrix 1 1 = Inr 0"
proof -
  have X: "get_sparse example_ratings = Inr example_matrix"
    by code_simp
  have d: "distinct (map (\<lambda>r. (r_user_id r, r_movie_id r)) example_ratings)"
    by code_simp
  have r0: "\<lparr>r_movie_id = 1, r_user_id = 0, rating = 7 / 2\<rparr> \<in> set example_ratings"
    and r1: "\<lparr>r_movie_id = 0, r_user_id = 2, rating = 4\<rparr> \<in> set example_ratings"
    by (simp_all add: example_ratings_def)
  have s: "(1::nat) < length (csr_rows example_matrix) \<and> (1::nat) < csr_ncols example_matrix
      \<and> (1, 1) \<notin> set (map (\<lambda>r. (r_user_id r, r_movie_id r)) example_ratings)"
    by (simp add: example_matrix_def example_ratings_def)
  from get_sparse_read_back [of example_ratings example_matrix] X d r0 r1 s
  have "getitem example_matrix 0 1 = Inr (astype_int32 (7 / 2))"
    and "getitem example_matrix 2 0 = Inr 4"
    and "getitem example_matrix 1 1 = Inr 0"
    by force+
  with X d show ?thesis by simp
qed

section \<open>Properties of the train/test split\<close>


lemma split_sizes_sum:
  assumes "split_sizes n ts = Inr (a, b)"
  shows "a + b = n" and "0 < a"
  using assms
  by (auto simp: split_sizes_def Let_def split: size_arg.splits npfloat.splits if_splits)

lemma permutation_mset:
  assumes "sort p = [0 ..< n]"
  shows "mset p = mset [0 ..< n]" and "length p = n"
proof -
  show "mset p = mset [0 ..< n]"
    using assms mset_sort [of "\<lambda>x. x" p] by simp
  then have "size (mset p) = size (mset [0 ..< n])" by simp
  then show "length p = n" by simp
qed

lemma mset_rows_permutation:
  assumes "mset p = mset [0 ..< length xs]"
  shows "mset (map (\<lambda>i. xs ! i) p) = mset xs"
proof -
  have "mset (map (\<lambda>i. xs ! i) p) = image_mset (\<lambda>i. xs ! i) (mset p)"
    by simp
  also have "\<dots> = mset (map (\<lambda>i. xs ! i) [0 ..< length xs])"
    using assms by simp
  also have "\<dots> = mset xs"
    by (simp add: map_nth)
  finally show ?thesis .
qed

lemma mset_take_drop: "mset (take k xs) + mset (drop k xs) = mset xs"
proof -
  have "mset (take k xs @ drop k xs) = mset xs" by simp
  then show ?thesis by (simp only: mset_append)
qed

lemma split_rows_mset:
  assumes "train_test_split X ts shuffle p = Inr (tr, te)"
    and "shuffle \<longrightarrow> sort p = [0 ..< length (csr_rows X)]"
  shows "mset (csr_rows tr) + mset (csr_rows te) = mset (csr_rows X)"
    and "csr_ncols tr = csr_ncols X" and "csr_ncols te = csr_ncols X"
proof -
  let ?n = "length (csr_rows X)"
  let ?f = "\<lambda>i. csr_rows X ! i"
  obtain a b where ab: "split_sizes ?n ts = Inr (a, b)"
    using assms(1) by (auto simp: train_test_split_def split: sum.splits)
  have n: "a + b = ?n" using split_sizes_sum(1) [OF ab] .
  have res: "tr = (if shuffle then take_rows X (take a (drop b p)) else take_rows X [0 ..< a])"
    "te = (if shuffle then take_rows X (take b p) else take_rows X [a ..< a + b])"
    using assms(1) ab by (auto simp: train_test_split_def split: if_splits)
  show "csr_ncols tr = csr_ncols X" and "csr_ncols te = csr_ncols X"
    using res by (simp_all add: take_rows_def)
  show "mset (csr_rows tr) + mset (csr_rows te) = mset (csr_rows X)"
  proof (cases shuffle)
    case True
    then have p: "mset p = mset [0 ..< ?n]" and lp: "length p = ?n"
      using assms(2) permutation_mset by blast+
    have "take a (drop b p) = drop b p"
      using lp n by simp
    then have "mset (csr_rows tr) + mset (csr_rows te)
        = mset (map ?f (drop b p)) + mset (map ?f (take b p))"
      using res True by (simp add: take_rows_def)
    also have "\<dots> = mset (take b (map ?f p)) + mset (drop b (map ?f p))"
      by (simp add: take_map drop_map)
    also have "\<dots> = mset (map ?f p)"
      by (rule mset_take_drop)
    also have "\<dots> = mset (csr_rows X)"
      using p by (rule mset_rows_permutation)
    finally show ?thesis .
  next
    case False
    have "[0 ..< a] @ [a ..< a + b] = [0 ..< ?n]"
      using n by (metis le_add1 upt_add_eq_append zero_le)
    then have "map ?f [0 ..< a] @ map ?f [a ..< a + b] = csr_rows X"
      by (metis map_append map_nth)
    then have "mset (map ?f [0 ..< a]) + mset (map ?f [a ..< a + b]) = mset (csr_rows X)"
      by (metis mset_append)
    then show ?thesis
      using res False by (simp add: take_rows_def)
  qed
qed

lemma nonzero_count_mset:
  "nonzero_count X = sum_mset (image_mset (\<lambda>row. length (filter (\<lambda>e. snd e \<noteq> 0) row)) (mset (csr_rows X)))"
proof -
  have "sum_list (map (\<lambda>row. length (filter (\<lambda>e. snd e \<noteq> 0) row)) (csr_rows X))
      = sum_mset (mset (map (\<lambda>row. length (filter (\<lambda>e. snd e \<noteq> 0) row)) (csr_rows X)))"
    by (simp only: sum_mset_sum_list)
  then show ?thesis by (simp add: nonzero_count_def)
qed

text \<open>
  Claim C1, amended. The split made by \<open>fit\<close> partitions the rows (the users) of the
  interaction matrix: for every permutation of the row indices, each row of the matrix
  goes, whole, to exactly one of the train and test copies; the copies keep the number of
  columns, their numbers of rows add up to the number of rows of the matrix, and their
  counts of nonzero entries add up to the count of the matrix.
\<close>

theorem train_test_split_rows:
  "train_test_split X test_size shuffle permutation = Inr (X_train, X_test)
     \<and> (shuffle \<longrightarrow> sort permutation = [0 ..< length (csr_rows X)])
   \<longrightarrow> nonzero_count X_train + nonzero_count X_test = nonzero_count X
     \<and> mset (csr_rows X_train) + mset (csr_rows X_test) = mset (csr_rows X)
     \<and> length (csr_rows X_train) + length (csr_rows X_test) = length (csr_rows X)
     \<and> csr_ncols X_train = csr_ncols X \<and> csr_ncols X_test = csr_ncols X"
proof
  assume h: "train_test_split X test_size shuffle permutation = Inr (X_train, X_test)
     \<and> (shuffle \<longrightarrow> sort permutation = [0 ..< length (csr_rows X)])"
  then have m: "mset (csr_rows X_train) + mset (csr_rows X_test) = mset (csr_rows X)"
    and c: "csr_ncols X_train = csr_ncols X" "csr_ncols X_test = csr_ncols X"
    using split_rows_mset [of X test_size shuffle permutation X_train X_test] by simp_all
  from m have "size (mset (csr_rows X_train) + mset (csr_rows X_test)) = size (mset (csr_rows X))"
    by simp
  then have l: "length (csr_rows X_train) + length (csr_rows X_test) = length (csr_rows X)"
    by simp
  have "nonzero_count X_train + nonzero_count X_test = nonzero_count X"
    unfolding nonzero_count_mset m [symmetric] by simp
  with m l c show "nonzero_count X_train + nonzero_count X_test = nonzero_count X
     \<and> mset (csr_rows X_train) + mset (csr_rows X_test) = mset (csr_rows X)
     \<and> length (csr_rows X_train) + length (csr_rows X_test) = length (csr_rows X)
     \<and> csr_ncols X_train = csr_ncols X \<and> csr_ncols X_test = csr_ncols X"
    by simp
qed

text \<open>
  Claim C1, as stated, at a matrix of two users who both rated the one movie: the copies
  have one row each, not the two rows of the matrix, and the position (0, 0) is nonzero
  in both copies.
\<close>

theorem train_test_split_counterexample:
  "sort [0, 1] = [0 ..< length (csr_rows two_users)]
   \<and> train_test_split two_users (Fraction (1 / 2)) True [0, 1] = Inr (one_user, one_user)
   \<and> length (csr_rows one_user) \<noteq> length (csr_rows two_users)
   \<and> getitem one_user 0 0 = Inr 1"
  by code_simp

text \<open>The amended claim C1 on a matrix of five users.\<close>

theorem train_test_split_rows_witness:
  "train_test_split five_users (Fraction (1 / 5)) True [3, 1, 0, 4, 2]
     = Inr (\<lparr>csr_ncols = 2, csr_rows = [[(0, 2), (1, 0)], [(0, 1)], [], [(1, 3)]]\<rparr>,
            \<lparr>csr_ncols = 2, csr_rows = [[(0, 4)]]\<rparr>)
   \<and> sort [3, 1, 0, 4, 2] = [0 ..< length (csr_rows five_users)]
   \<and> nonzero_count \<lparr>csr_ncols = 2, csr_rows = [[(0, 2), (1, 0)], [(0, 1)], [], [(1, 3)]]\<rparr>
       + nonzero_count \<lparr>csr_ncols = 2, csr_rows = [[(0, 4)]]\<rparr> = nonzero_count five_users
   \<and> nonzero_count five_users = 4"
proof -
  have s: "train_test_split five_users (Fraction (1 / 5)) True [3, 1, 0, 4, 2]
     = Inr (\<lparr>csr_ncols = 2, csr_rows = [[(0, 2), (1, 0)], [(0, 1)], [], [(1, 3)]]\<rparr>,
            \<lparr>csr_ncols = 2, csr_rows = [[(0, 4)]]\<rparr>)"
    by code_simp
  have p: "sort [3, 1, 0, 4, 2] = [0 ..< length (csr_rows five_users)]"
    by code_simp
  have n: "nonzero_count five_users = 4"
    by code_simp
  from train_test_split_rows [of five_users "Fraction (1 / 5)" True "[3, 1, 0, 4, 2]"
      "\<lparr>csr_ncols = 2, csr_rows = [[(0, 2), (1, 0)], [(0, 1)], [], [(1, 3)]]\<rparr>"
      "\<lparr>csr_ncols = 2, csr_rows = [[(0, 4)]]\<rparr>"] s p
  have "nonzero_count \<lparr>csr_ncols = 2, csr_rows = [[(0, 2), (1, 0)], [(0, 1)], [], [(1, 3)]]\<rparr>
       + nonzero_count \<lparr>csr_ncols = 2, csr_rows = [[(0, 4)]]\<rparr> = nonzero_count five_users"
    by simp
  with s p n show ?thesis by simp
qed

section \<open>Properties of fit\<close>




lemma split_four_users:
  "train_test_split four_users (Fraction (1 / 2)) True given_order
     = Inr (half_of_four, half_of_four)"
  by code_simp

lemma fit_example_system:
  "fit solver metric example_system fs (Fraction (1 / 2)) True given_order init kwargs =
     (case metric (als_fit solver kwargs init half_of_four) half_of_four half_of_four of
        Inl e \<Rightarrow> (Inl e, example_system\<lparr>model := Some (als_fit solver kwargs init half_of_four)\<rparr>, fs)
      | Inr sc \<Rightarrow>
          (case als_save fs ''./models/als_recommender_model.npz''
                  (als_fit solver kwargs init half_of_four) of
             Inl e \<Rightarrow> (Inl e, example_system\<lparr>model := Some (als_fit solver kwargs init half_of_four),
                          test_score := Some sc\<rparr>, fs)
           | Inr fs' \<Rightarrow> (Inr (als_fit solver kwargs init half_of_four, sc),
                          example_system\<lparr>model := Some (als_fit solver kwargs init half_of_four),
                            test_score := Some sc\<rparr>, fs')))"
proof -
  have "sparse_matrix example_system = four_users"
    and "model_save_address example_system = ''./models/als_recommender_model.npz''"
    by (simp_all add: example_system_def)
  then show ?thesis
    unfolding fit_def by (simp only: split_four_users sum.case prod.case Let_def)
qed

lemma save_empty_machine:
  "als_save empty_machine ''./models/als_recommender_model.npz'' m
     = Inr (empty_machine\<lparr>files := [''./models/als_recommender_model.npz'' \<mapsto> m]\<rparr>)"
  by (simp add: als_save_def npz_path_def dirname_def empty_machine_def)



text \<open>
  Claim C4 on the code. The seed of \<open>fit\<close> fixes the permutation of the split and nothing
  else: the fitted model is the solver's iterations applied to the initial factors, which
  the model draws from its own unseeded random state. Two runs on the same matrix with the
  same hyperparameters and the same seed, here with no iteration so that the fitted model
  is the draw itself, return different factor models when the draws differ.
\<close>

theorem fit_not_reproducible:
  "initial_draw no_iteration half_of_four first_draw
   \<and> initial_draw no_iteration half_of_four second_draw
   \<and> (\<forall>solver metric init kwargs.
        model (fst (snd (fit solver metric example_system empty_machine
            (Fraction (1 / 2)) True given_order init kwargs)))
          = Some ((solver kwargs half_of_four ^^ iterations kwargs) init))
   \<and> (\<forall>solver metric.
        model (fst (snd (fit solver metric example_system empty_machine
            (Fraction (1 / 2)) True given_order first_draw no_iteration))) = Some first_draw
        \<and> model (fst (snd (fit solver metric example_system empty_machine
            (Fraction (1 / 2)) True given_order second_draw no_iteration))) = Some second_draw)
   \<and> first_draw \<noteq> second_draw"
proof -
  have d: "initial_draw no_iteration half_of_four first_draw"
    "initial_draw no_iteration half_of_four second_draw"
    by code_simp+
  have g: "model (fst (snd (fit solver metric example_system empty_machine
            (Fraction (1 / 2)) True given_order init kwargs)))
          = Some ((solver kwargs half_of_four ^^ iterations kwargs) init)"
    for solver metric init kwargs
    unfolding fit_example_system
    by (simp add: als_fit_def save_empty_machine split: sum.splits)
  have i: "iterations no_iteration = 0"
    by (simp add: no_iteration_def)
  have n: "first_draw \<noteq> second_draw"
    by (simp add: first_draw_def second_draw_def)
  from d g i n show ?thesis by simp
qed

section \<open>Properties of recommend\_for\_new\_users\<close>


lemma set_unique: "set (unique xs) = set xs"
  by (induction xs rule: unique.induct) auto

lemma distinct_unique: "distinct (unique xs)"
  by (induction xs rule: unique.induct) (auto simp: set_unique)

lemma length_unique: "length (unique xs) = card (set xs)"
  using distinct_card [OF distinct_unique, of xs] by (simp add: set_unique)

lemma unique_rows_Cons:
  "unique (map movie_id (x # xs))
     = movie_id x # unique (map movie_id (filter (\<lambda>r. movie_id r \<noteq> movie_id x) xs))"
  by (simp add: filter_map comp_def)

lemma pool_top:
  assumes "sorted_wrt (\<lambda>a b. score b \<le> score a) xs"
    and "p \<in> set (take k (unique (map movie_id xs)))"
    and "r \<in> set xs"
    and "movie_id r \<notin> set (take k (unique (map movie_id xs)))"
  shows "\<exists>r' \<in> set xs. movie_id r' = p \<and> score r \<le> score r'"
  using assms
proof (induction "length xs" arbitrary: xs k rule: less_induct)
  case less
  show ?case
  proof (cases xs)
    case Nil
    with less.prems show ?thesis by simp
  next
    case (Cons x xs')
    let ?ys = "filter (\<lambda>r. movie_id r \<noteq> movie_id x) xs'"
    obtain k' where k: "k = Suc k'"
      using less.prems(2) by (cases k) auto
    have pool: "take k (unique (map movie_id xs))
        = movie_id x # take k' (unique (map movie_id ?ys))"
      unfolding Cons k unique_rows_Cons by simp
    have head: "score r \<le> score x"
      using less.prems(1,3) Cons by auto
    show ?thesis
    proof (cases "p = movie_id x")
      case True
      with head Cons show ?thesis by auto
    next
      case False
      have p: "p \<in> set (take k' (unique (map movie_id ?ys)))"
        using less.prems(2) pool False by simp
      have nr: "movie_id r \<noteq> movie_id x"
        and nr': "movie_id r \<notin> set (take k' (unique (map movie_id ?ys)))"
        using less.prems(4) pool by auto
      have r: "r \<in> set ?ys"
        using less.prems(3) nr Cons by auto
      have s: "sorted_wrt (\<lambda>a b. score b \<le> score a) ?ys"
        using less.prems(1) Cons by (simp add: sorted_wrt_filter)
      have l: "length ?ys < length xs"
        using Cons by (simp add: less_Suc_eq_le)
      from less.hyps [OF l s p r nr']
      obtain r' where "r' \<in> set ?ys" "movie_id r' = p" "score r \<le> score r'"
        by blast
      then show ?thesis using Cons by auto
    qed
  qed
qed

lemma recommend_for_new_users_Inr:
  assumes "recommend_for_new_users sorted_df draw k = Inr res"
  shows "res = map (\<lambda>i. take k (unique (map movie_id sorted_df)) ! i) draw"
    and "list_all (\<lambda>i. i < length (take k (unique (map movie_id sorted_df)))) draw"
  using assms by (auto simp: recommend_for_new_users_def Let_def split: if_splits)

text \<open>
  Claim C2, amended. For every popularity frame, every outcome of the sort and every
  outcome of the draw: the candidate pool is the first \<open>pool_size\<close> distinct movie ids of
  the frame sorted by score descending, so no movie outside the pool has a score above
  that of a movie in it (the order among equal scores is the sort's, not the ids'); the
  result has \<open>n\<close> entries, each of them a movie of the pool, drawn with repetition; and
  the call returns whenever the pool size is positive and at most the number of movies.
\<close>

theorem recommend_for_new_users_pool:
  "(sort_values_outcome frame sorted_df \<and> randint_outcome k n draw
      \<and> recommend_for_new_users sorted_df draw k = Inr res
    \<longrightarrow> length res = n
      \<and> set res \<subseteq> set (take k (unique (map movie_id sorted_df)))
      \<and> distinct (take k (unique (map movie_id sorted_df)))
      \<and> set (take k (unique (map movie_id sorted_df))) \<subseteq> movie_id ` set frame
      \<and> (\<forall>p \<in> set (take k (unique (map movie_id sorted_df))). \<forall>r \<in> set frame.
            movie_id r \<notin> set (take k (unique (map movie_id sorted_df)))
            \<longrightarrow> (\<exists>r' \<in> set frame. movie_id r' = p \<and> score r \<le> score r')))
   \<and> (sort_values_outcome frame sorted_df \<and> randint_outcome k n draw
      \<and> 0 < k \<and> k \<le> card (movie_id ` set frame)
    \<longrightarrow> (\<exists>res. recommend_for_new_users sorted_df draw k = Inr res))"
proof (intro conjI impI ballI)
  let ?pool = "take k (unique (map movie_id sorted_df))"
  assume h: "sort_values_outcome frame sorted_df \<and> randint_outcome k n draw
      \<and> recommend_for_new_users sorted_df draw k = Inr res"
  then have st: "set sorted_df = set frame"
    and sw: "sorted_wrt (\<lambda>a b. score b \<le> score a) sorted_df"
    by (auto simp: sort_values_outcome_def dest: mset_eq_setD)
  from h have res: "res = map (\<lambda>i. ?pool ! i) draw"
    and inb: "list_all (\<lambda>i. i < length ?pool) draw"
    using recommend_for_new_users_Inr by blast+
  show "length res = n"
    using h res by (simp add: randint_outcome_def)
  show "set res \<subseteq> set ?pool"
  proof
    fix x
    assume "x \<in> set res"
    then obtain i where i: "i \<in> set draw" and x: "x = ?pool ! i"
      unfolding res set_map by blast
    have "i < length ?pool"
      using inb i unfolding list_all_iff by blast
    then show "x \<in> set ?pool"
      unfolding x by (rule nth_mem)
  qed
  show "distinct ?pool"
    by (simp add: distinct_unique)
  have "set ?pool \<subseteq> set (unique (map movie_id sorted_df))"
    by (rule set_take_subset)
  then show "set ?pool \<subseteq> movie_id ` set frame"
    by (simp add: set_unique st)
  fix p r
  assume "p \<in> set ?pool" and "r \<in> set frame" and "movie_id r \<notin> set ?pool"
  then show "\<exists>r' \<in> set frame. movie_id r' = p \<and> score r \<le> score r'"
    using pool_top [OF sw, of p k r] st by simp
next
  let ?pool = "take k (unique (map movie_id sorted_df))"
  assume h: "sort_values_outcome frame sorted_df \<and> randint_outcome k n draw
      \<and> 0 < k \<and> k \<le> card (movie_id ` set frame)"
  then have "set sorted_df = set frame"
    by (auto simp: sort_values_outcome_def dest: mset_eq_setD)
  then have "length (unique (map movie_id sorted_df)) = card (movie_id ` set frame)"
    by (simp add: length_unique)
  then have "length ?pool = k"
    using h by simp
  then have "list_all (\<lambda>i. i < length ?pool) draw"
    using h by (simp add: randint_outcome_def)
  then show "\<exists>res. recommend_for_new_users sorted_df draw k = Inr res"
    using h by (simp add: recommend_for_new_users_def Let_def)
qed

text \<open>
  Claim C2, as stated, at the frame with scores 10, 10 and 5 for the movies 5, 2 and 1:
  with a pool of two and the draw \<open>[0, 0]\<close> the result holds movie 5 twice; and with a pool
  of one the result is movie 5, not movie 2, which has the same score and the smaller id.
\<close>

theorem recommend_for_new_users_counterexample:
  "sort_values_outcome popularity popularity
   \<and> randint_outcome 2 2 [0, 0]
   \<and> recommend_for_new_users popularity [0, 0] 2 = Inr [5, 5]
   \<and> \<not> distinct [5 :: nat, 5]
   \<and> randint_outcome 1 1 [0]
   \<and> recommend_for_new_users popularity [0] 1 = Inr [5]"
  by code_simp

text \<open>The amended claim C2 on the same frame.\<close>

theorem recommend_for_new_users_pool_witness:
  "sort_values_outcome popularity popularity
   \<and> randint_outcome 2 3 [1, 0, 1]
   \<and> 0 < (2 :: nat) \<and> 2 \<le> card (movie_id ` set popularity)
   \<and> recommend_for_new_users popularity [1, 0, 1] 2 = Inr [2, 5, 2]
   \<and> take 2 (unique (map movie_id popularity)) = [5, 2]
   \<and> length [2 :: nat, 5, 2] = 3"
proof -
  have s: "sort_values_outcome popularity popularity"
    and d: "randint_outcome 2 3 [1, 0, 1]"
    and r: "recommend_for_new_users popularity [1, 0, 1] 2 = Inr [2, 5, 2]"
    and p: "take 2 (unique (map movie_id popularity)) = [5, 2]"
    by code_simp+
  have c: "2 \<le> card (movie_id ` set popularity)"
    by (simp add: popularity_def)
  from recommend_for_new_users_pool [of popularity popularity 2 3 "[1, 0, 1]" "[2, 5, 2]"] s d r c
  have "length [2 :: nat, 5, 2] = 3"
    by blast
  with s d r p c show ?thesis by simp
qed

section \<open>Properties of recommend\_for\_user\<close>






















end
